theory Spec2Isabelle
  imports Main "HOL-Library.Sublist"
begin

section \<open>Values of the Python runtime used by \<open>app.py\<close>\<close>

text \<open>
  A Python string is the list of its code points; the characters of this theory are the
  code points below 256.

  Exceptions that the modelled lines of \<open>app.py\<close> can raise. A function that may raise
  returns \<open>error + 'a\<close>, with \<open>Inl\<close> for the exception. \<open>GSpreadException\<close> stands for
  what a read of the worksheet raises.
\<close>

datatype error = ValueError | TypeError | KeyError | OverflowError | GSpreadException

text \<open>
  A \<open>datetime.time\<close> with zero seconds (all times of \<open>app.py\<close> are built from hours and
  minutes only) is the number of minutes since midnight, below 1440; comparing two times
  is comparing these numbers.
\<close>

type_synonym time = nat

definition mk_time :: "nat \<Rightarrow> nat \<Rightarrow> time" where
  "mk_time h m = 60 * h + m"

text \<open>A \<open>datetime.date\<close>: year, month and day, as the Python object has them.\<close>

record date =
  year :: nat
  month :: nat
  day :: nat

definition is_leap :: "nat \<Rightarrow> bool" where
  "is_leap y = (y mod 4 = 0 \<and> (y mod 100 \<noteq> 0 \<or> y mod 400 = 0))"

definition days_in_month :: "nat \<Rightarrow> nat \<Rightarrow> nat" where
  "days_in_month y m =
     (if m = 2 \<and> is_leap y then 29
      else [0, 31, 28, 31, 30, 31, 30, 31, 31, 30, 31, 30, 31] ! m)"

definition valid_date :: "date \<Rightarrow> bool" where
  "valid_date D =
     (1 \<le> year D \<and> year D \<le> 9999 \<and> 1 \<le> month D \<and> month D \<le> 12 \<and>
      1 \<le> day D \<and> day D \<le> days_in_month (year D) (month D))"

definition days_before_year :: "nat \<Rightarrow> nat" where
  "days_before_year y = (y - 1) * 365 + (y - 1) div 4 - (y - 1) div 100 + (y - 1) div 400"

definition days_before_month :: "nat \<Rightarrow> nat \<Rightarrow> nat" where
  "days_before_month y m =
     [0, 0, 31, 59, 90, 120, 151, 181, 212, 243, 273, 304, 334] ! m
       + (if m > 2 \<and> is_leap y then 1 else 0)"

definition toordinal :: "date \<Rightarrow> nat" where
  "toordinal D = days_before_year (year D) + days_before_month (year D) (month D) + day D"

text \<open>
  A naive \<open>datetime\<close> with zero seconds is the number of minutes since the start of
  ordinal day 0; the representable ones run from 0001-01-01 00:00 to 9999-12-31 23:59.
  Adding a \<open>timedelta\<close> of whole minutes raises \<open>OverflowError\<close> outside that range.
\<close>

type_synonym datetime = int

definition combine :: "date \<Rightarrow> time \<Rightarrow> datetime" where
  "combine D t = int (toordinal D) * 1440 + int t"

definition dt_min :: datetime where
  "dt_min = 1440"

definition dt_max :: datetime where
  "dt_max = 3652059 * 1440 + 1439"

definition dt_add :: "datetime \<Rightarrow> int \<Rightarrow> error + datetime" where
  "dt_add dt n = (if dt_min \<le> dt + n \<and> dt + n \<le> dt_max then Inr (dt + n) else Inl OverflowError)"

definition time_of :: "datetime \<Rightarrow> time" where
  "time_of dt = nat (dt mod 1440)"

subsection \<open>Formatting and parsing\<close>

definition digit_chr :: "nat \<Rightarrow> char" where
  "digit_chr n = ''0123456789'' ! n"

definition digit_val :: "char \<Rightarrow> nat option" where
  "digit_val c =
     (let k = (of_char c :: nat) in if 48 \<le> k \<and> k \<le> 57 then Some (k - 48) else None)"

definition pad2 :: "nat \<Rightarrow> string" where
  "pad2 n = [digit_chr (n div 10), digit_chr (n mod 10)]"

definition pad4 :: "nat \<Rightarrow> string" where
  "pad4 n = [digit_chr (n div 1000), digit_chr (n div 100 mod 10),
             digit_chr (n div 10 mod 10), digit_chr (n mod 10)]"

text \<open>\<open>time.strftime("%H:%M")\<close> and \<open>date.isoformat()\<close>.\<close>

definition strftime_HM :: "time \<Rightarrow> string" where
  "strftime_HM t = pad2 (t div 60) @ '':'' @ pad2 (t mod 60)"

definition isoformat :: "date \<Rightarrow> string" where
  "isoformat D = pad4 (year D) @ ''-'' @ pad2 (month D) @ ''-'' @ pad2 (day D)"

text \<open>
  \<open>datetime.strptime(s, "%H:%M").time()\<close>; of the code points below 256, \<open>\d\<close> matches
  the digits 0 to 9 only. The library matches the regular expression \<open>(2[0-3]|[0-1]\d|\d):([0-5]\d|\d)\<close> at the start of \<open>s\<close> and raises
  \<open>ValueError\<close> when it does not match or when text remains after the match.
  \<open>parse_H\<close> is the hour group up to and including the colon, \<open>parse_M\<close> the minute
  group, which must reach the end of the string.
\<close>

definition two_digits :: "char \<Rightarrow> char \<Rightarrow> nat \<Rightarrow> nat option" where
  "two_digits a b bound =
     (case (digit_val a, digit_val b) of
        (Some x, Some y) \<Rightarrow> if 10 * x + y < bound then Some (10 * x + y) else None
      | _ \<Rightarrow> None)"

fun parse_H :: "string \<Rightarrow> (nat \<times> string) option" where
  "parse_H (a # b # c # rest) =
     (case (if c = CHR '':'' then two_digits a b 24 else None) of
        Some h \<Rightarrow> Some (h, rest)
      | None \<Rightarrow>
          (case (if b = CHR '':'' then digit_val a else None) of
             Some h \<Rightarrow> Some (h, c # rest)
           | None \<Rightarrow> None))"
| "parse_H [a, b] =
     (case (if b = CHR '':'' then digit_val a else None) of
        Some h \<Rightarrow> Some (h, [])
      | None \<Rightarrow> None)"
| "parse_H _ = None"

fun parse_M :: "string \<Rightarrow> nat option" where
  "parse_M [a] = digit_val a"
| "parse_M [a, b] = two_digits a b 60"
| "parse_M _ = None"

definition strptime_HM :: "string \<Rightarrow> error + time" where
  "strptime_HM s =
     (case parse_H s of
        None \<Rightarrow> Inl ValueError
      | Some (h, rest) \<Rightarrow>
          (case parse_M rest of
             None \<Rightarrow> Inl ValueError
           | Some m \<Rightarrow> Inr (mk_time h m)))"

section \<open>Configuration\<close>

definition WORKING_HOURS :: "time \<times> time" where
  "WORKING_HOURS = (mk_time 9 0, mk_time 18 0)"

definition SLOT_MINUTES :: int where
  "SLOT_MINUTES = 30"

section \<open>Sheet data as the application reads it\<close>

text \<open>
  A value of a record returned by \<open>get_all_records\<close>, which turns the text of a cell
  into a number where it reads as one: a string, an integer, or a float, kept as the text
  that \<open>str\<close> gives for it. A record is a Python dict, kept as an association list from
  column name to value; a data frame built from records is the list of its rows.
\<close>

datatype cell = Str string | Num int | Flt string

type_synonym row = "(string \<times> cell) list"

type_synonym dataframe = "row list"

text \<open>
  \<open>DataFrame.empty\<close>: no rows or no columns. The columns of a frame built from records
  are the keys that occur in any record.
\<close>

definition df_empty :: "dataframe \<Rightarrow> bool" where
  "df_empty df = list_all (\<lambda>r. r = []) df"

definition has_column :: "dataframe \<Rightarrow> string \<Rightarrow> bool" where
  "has_column df k = list_ex (\<lambda>r. map_of r k \<noteq> None) df"

section \<open>Slot generation (\<open>generate_slots\<close>, \<open>overlaps\<close>)\<close>

text \<open>
  The \<open>while\<close> loop of \<open>generate_slots\<close>, with the loop variable \<open>cur\<close>, the bound
  \<open>end_dt\<close> and the list built so far.
\<close>

function gen_loop :: "datetime \<Rightarrow> datetime \<Rightarrow> string list \<Rightarrow> error + string list" where
  "gen_loop cur end_dt slots =
     (case dt_add cur 15 of
        Inl e \<Rightarrow> Inl e
      | Inr c15 \<Rightarrow>
          if c15 \<le> end_dt then
            (case dt_add cur SLOT_MINUTES of
               Inl e \<Rightarrow> Inl e
             | Inr cur' \<Rightarrow> gen_loop cur' end_dt (slots @ [strftime_HM (time_of cur)]))
          else Inr slots)"
  by pat_completeness auto
termination
  by (relation "measure (\<lambda>(cur, end_dt, slots). nat (end_dt - cur))")
     (auto simp: dt_add_def SLOT_MINUTES_def split: if_splits)

definition generate_slots :: "date \<Rightarrow> dataframe \<Rightarrow> dataframe \<Rightarrow> error + string list" where
  "generate_slots selected_date services_df bookings_df =
     (let start_dt = combine selected_date (fst WORKING_HOURS);
          end_dt = combine selected_date (snd WORKING_HOURS)
      in gen_loop start_dt end_dt [])"

definition overlaps :: "'a::linorder \<Rightarrow> 'a \<Rightarrow> 'a \<Rightarrow> 'a \<Rightarrow> bool" where
  "overlaps start_a end_a start_b end_b = (start_a < end_b \<and> end_a > start_b)"

section \<open>Availability (the guest tab, filtering the generated slots)\<close>

text \<open>
  The day's bookings: \<open>bookings_df[bookings_df["date"] == selected_date.isoformat()]\<close>
  when the frame is not empty, an empty frame otherwise. Selecting a column that the
  frame does not have raises \<open>KeyError\<close>.
\<close>

definition day_bookings_of :: "date \<Rightarrow> dataframe \<Rightarrow> error + dataframe" where
  "day_bookings_of selected_date bookings_df =
     (if \<not> df_empty bookings_df then
        (if has_column bookings_df ''date''
         then Inr (filter (\<lambda>r. map_of r ''date'' = Some (Str (isoformat selected_date)))
                     bookings_df)
         else Inl KeyError)
      else Inr [])"

text \<open>\<open>datetime.strptime\<close> on a value of a record: only a string can be parsed.\<close>

fun cell_strptime :: "cell \<Rightarrow> error + time" where
  "cell_strptime (Str s) = strptime_HM s"
| "cell_strptime (Num n) = Inl TypeError"
| "cell_strptime (Flt r) = Inl TypeError"

text \<open>
  The body of the \<open>try\<close> block: the start and the end of a booking as datetimes of
  the selected date, or the exception that the block raises.
\<close>

definition booking_interval :: "date \<Rightarrow> row \<Rightarrow> error + (datetime \<times> datetime)" where
  "booking_interval selected_date rb =
     (case map_of rb ''start_time'' of
        None \<Rightarrow> Inl KeyError
      | Some c \<Rightarrow>
          (case cell_strptime c of
             Inl e \<Rightarrow> Inl e
           | Inr ts \<Rightarrow>
               (case map_of rb ''end_time'' of
                  None \<Rightarrow> Inl KeyError
                | Some c' \<Rightarrow>
                    (case cell_strptime c' of
                       Inl e \<Rightarrow> Inl e
                     | Inr te \<Rightarrow> Inr (combine selected_date ts, combine selected_date te)))))"

text \<open>
  The inner loop over the day's bookings; its value is the flag \<open>conflict\<close>. An
  exception of the \<open>try\<close> block continues with the next booking, an overlap ends the loop.
\<close>

fun conflict_loop :: "date \<Rightarrow> datetime \<Rightarrow> datetime \<Rightarrow> dataframe \<Rightarrow> bool" where
  "conflict_loop selected_date stime etime [] = False"
| "conflict_loop selected_date stime etime (rb # rest) =
     (case booking_interval selected_date rb of
        Inl e \<Rightarrow> conflict_loop selected_date stime etime rest
      | Inr (b_start, b_end) \<Rightarrow>
          if overlaps stime etime b_start b_end then True
          else conflict_loop selected_date stime etime rest)"

text \<open>The outer loop over \<open>slot_list\<close>, with the list \<open>avail_slots\<close> built so far.\<close>

fun avail_loop ::
  "date \<Rightarrow> int \<Rightarrow> dataframe \<Rightarrow> string list \<Rightarrow> string list \<Rightarrow> error + string list" where
  "avail_loop selected_date duration_min day_bookings [] avail = Inr avail"
| "avail_loop selected_date duration_min day_bookings (s # rest) avail =
     (case strptime_HM s of
        Inl e \<Rightarrow> Inl e
      | Inr t \<Rightarrow>
          (let stime = combine selected_date t in
           case dt_add stime duration_min of
             Inl e \<Rightarrow> Inl e
           | Inr etime \<Rightarrow>
               (let conflict =
                      (if \<not> df_empty day_bookings
                       then conflict_loop selected_date stime etime day_bookings
                       else False)
                in avail_loop selected_date duration_min day_bookings rest
                     (if \<not> conflict \<and> time_of etime \<le> snd WORKING_HOURS
                      then avail @ [s] else avail))))"

definition avail_slots :: "date \<Rightarrow> int \<Rightarrow> dataframe \<Rightarrow> dataframe \<Rightarrow> error + string list" where
  "avail_slots selected_date duration_min services_df bookings_df =
     (case generate_slots selected_date services_df bookings_df of
        Inl e \<Rightarrow> Inl e
      | Inr slot_list \<Rightarrow>
          (case day_bookings_of selected_date bookings_df of
             Inl e \<Rightarrow> Inl e
           | Inr day_bookings \<Rightarrow>
               avail_loop selected_date duration_min day_bookings slot_list []))"

section \<open>The spreadsheet\<close>

text \<open>
  A worksheet is the list of its rows, the header row first; a blank cell is the empty
  string. The spreadsheet of the application has the two worksheets \<open>Bookings\<close> and
  \<open>Services\<close>.
\<close>

type_synonym worksheet = "cell list list"

record spreadsheet =
  Bookings :: worksheet
  Services :: worksheet

definition BOOKINGS_HEADER :: "string list" where
  "BOOKINGS_HEADER = [''id'', ''date'', ''start_time'', ''end_time'', ''service'',
     ''duration_min'', ''name'', ''phone'', ''status'', ''note'', ''created_at'']"

text \<open>The grid read at a row and a column, counted from 0: blank outside the stored rows.\<close>

definition cell_at :: "worksheet \<Rightarrow> nat \<Rightarrow> nat \<Rightarrow> cell" where
  "cell_at ws a b = (if a < length ws \<and> b < length (ws ! a) then ws ! a ! b else Str [])"

definition append_row :: "worksheet \<Rightarrow> cell list \<Rightarrow> worksheet" where
  "append_row ws r = ws @ [r]"

text \<open>\<open>str(v)\<close> for a non-negative and for any integer, and for the result of \<open>dict.get\<close>.\<close>

function str_nat :: "nat \<Rightarrow> string" where
  "str_nat n = (if n < 10 then [digit_chr n] else str_nat (n div 10) @ [digit_chr (n mod 10)])"
  by pat_completeness auto
termination
  by (relation "measure id") auto

definition str_int :: "int \<Rightarrow> string" where
  "str_int i = (if i < 0 then CHR ''-'' # str_nat (nat (- i)) else str_nat (nat i))"

fun str_cell :: "cell \<Rightarrow> string" where
  "str_cell (Str s) = s"
| "str_cell (Num i) = str_int i"
| "str_cell (Flt r) = r"

fun py_str :: "cell option \<Rightarrow> string" where
  "py_str None = ''None''"
| "py_str (Some c) = str_cell c"

text \<open>
  What the two reads of the bookings worksheet in the status form return, as the
  library outside this repository computes it from the sheet: \<open>ws.get_all_records()\<close>, the
  records of the rows below the header in the order of the rows (so that the record at
  position \<open>j\<close>, counted from 0, belongs to row \<open>j + 2\<close> of the sheet) or the exception
  raised, and \<open>ws.row_values(1)\<close>, the header row.
\<close>

record sheet_view =
  all_records :: "error + row list"
  first_row :: "string list"

definition pad_row :: "nat \<Rightarrow> cell list \<Rightarrow> cell list" where
  "pad_row n r = r @ replicate (n - length r) (Str [])"

text \<open>
  \<open>update_cell(i, col, v)\<close>, rows and columns counted from 1: one cell of the grid is
  written, the sheet growing by blank cells where the stored rows end before it.
\<close>

definition update_cell :: "worksheet \<Rightarrow> nat \<Rightarrow> nat \<Rightarrow> cell \<Rightarrow> worksheet" where
  "update_cell ws i col v =
     (if 1 \<le> i \<and> 1 \<le> col then
        (let ws' = ws @ replicate (i - length ws) []
         in ws'[i - 1 := (pad_row col (ws' ! (i - 1)))[col - 1 := v]])
      else ws)"

text \<open>\<open>list.index\<close>: the first position of a value, \<open>None\<close> for \<open>ValueError\<close>.\<close>

fun index_of :: "'a list \<Rightarrow> 'a \<Rightarrow> nat option" where
  "index_of [] x = None"
| "index_of (y # ys) x = (if y = x then Some 0 else map_option Suc (index_of ys x))"

text \<open>
  \<open>str.strip()\<close>. Of the code points below 256, \<open>str.isspace\<close> holds for 9 to 13, 28 to
  32, 133 and 160.
\<close>

definition is_space :: "char \<Rightarrow> bool" where
  "is_space c =
     (let k = (of_char c :: nat)
      in (9 \<le> k \<and> k \<le> 13) \<or> (28 \<le> k \<and> k \<le> 32) \<or> k = 133 \<or> k = 160)"

definition strip :: "string \<Rightarrow> string" where
  "strip s = rev (dropWhile is_space (rev (dropWhile is_space s)))"

section \<open>Saving a booking (\<open>save_booking\<close> and the guest form)\<close>

text \<open>
  What the two calls of \<open>datetime.utcnow()\<close> in \<open>save_booking\<close> yield:
  \<open>int(datetime.utcnow().timestamp() * 1000)\<close> and \<open>datetime.utcnow().isoformat()\<close>.
\<close>

record clock =
  stamp_ms :: int
  stamp_iso :: string

text \<open>\<open>booking_record[k]\<close> raises \<open>KeyError\<close> for a missing key.\<close>

definition getitem :: "row \<Rightarrow> string \<Rightarrow> error + cell" where
  "getitem r k = (case map_of r k of None \<Rightarrow> Inl KeyError | Some v \<Rightarrow> Inr v)"

definition save_booking :: "spreadsheet \<Rightarrow> clock \<Rightarrow> row \<Rightarrow> error + (spreadsheet \<times> int)" where
  "save_booking sh now booking_record =
     (let ws = Bookings sh;
          booking_id = stamp_ms now
      in case getitem booking_record ''date'' of Inl e \<Rightarrow> Inl e | Inr v_date \<Rightarrow>
         case getitem booking_record ''start_time'' of Inl e \<Rightarrow> Inl e | Inr v_start \<Rightarrow>
         case getitem booking_record ''end_time'' of Inl e \<Rightarrow> Inl e | Inr v_end \<Rightarrow>
         case getitem booking_record ''service'' of Inl e \<Rightarrow> Inl e | Inr v_service \<Rightarrow>
         case getitem booking_record ''duration_min'' of Inl e \<Rightarrow> Inl e | Inr v_duration \<Rightarrow>
         case getitem booking_record ''name'' of Inl e \<Rightarrow> Inl e | Inr v_name \<Rightarrow>
         case getitem booking_record ''phone'' of Inl e \<Rightarrow> Inl e | Inr v_phone \<Rightarrow>
           (let row = [Num booking_id, v_date, v_start, v_end, v_service, v_duration,
                       v_name, v_phone, Str ''booked'',
                       (case map_of booking_record ''note'' of None \<Rightarrow> Str [] | Some v \<Rightarrow> v),
                       Str (stamp_iso now)]
            in Inr (sh\<lparr>Bookings := append_row ws row\<rparr>, booking_id)))"

text \<open>Messages that the handlers show, one constructor for each call in \<open>app.py\<close>.\<close>

datatype notice =
    Warning_name_phone
  | Success_booked int
  | Warning_give_id
  | Success_updated
  | Error_no_status_field
  | Error_id_not_found
  | Success_service_added

text \<open>
  The handler of the button that confirms a booking: the chosen slot \<open>selected_time\<close>, the
  fields of the form, and the sheet and the messages afterwards.
\<close>

definition confirm_booking ::
  "spreadsheet \<Rightarrow> clock \<Rightarrow> date \<Rightarrow> string \<Rightarrow> int \<Rightarrow> string \<Rightarrow> string \<Rightarrow> string \<Rightarrow> string
     \<Rightarrow> error + (spreadsheet \<times> notice list)" where
  "confirm_booking sh now selected_date selected_time duration_min service_sel name phone note =
     (if strip name = [] \<or> strip phone = [] then Inr (sh, [Warning_name_phone])
      else
        case strptime_HM selected_time of Inl e \<Rightarrow> Inl e | Inr t \<Rightarrow>
        case dt_add (combine selected_date t) duration_min of Inl e \<Rightarrow> Inl e | Inr etime \<Rightarrow>
          (let booking =
                 [(''date'', Str (isoformat selected_date)),
                  (''start_time'', Str selected_time),
                  (''duration_min'', Num duration_min),
                  (''end_time'', Str (strftime_HM (time_of etime))),
                  (''service'', Str service_sel),
                  (''name'', Str (strip name)),
                  (''phone'', Str (strip phone)),
                  (''note'', Str (strip note))]
           in case save_booking sh now booking of
                Inl e \<Rightarrow> Inl e
              | Inr (sh', booking_id) \<Rightarrow> Inr (sh', [Success_booked booking_id])))"

section \<open>The admin panel\<close>

text \<open>
  The loop of the status form over the records read before it, \<open>i\<close> the sheet row of the
  record at hand and \<open>view\<close> what the reads return. Its value is the sheet, the messages
  and the flag \<open>updated\<close>.
\<close>

fun status_loop ::
  "worksheet \<Rightarrow> sheet_view \<Rightarrow> string \<Rightarrow> string \<Rightarrow> nat \<Rightarrow> row list \<Rightarrow> notice list
     \<Rightarrow> worksheet \<times> notice list \<times> bool" where
  "status_loop ws view wanted new_status i [] out = (ws, out, False)"
| "status_loop ws view wanted new_status i (r # rest) out =
     (if py_str (map_of r ''id'') = wanted then
        (let headers = first_row view in
         case index_of headers ''status'' of
           Some k \<Rightarrow>
             (update_cell ws i (k + 1) (Str new_status), out @ [Success_updated], True)
         | None \<Rightarrow>
             status_loop ws view wanted new_status (i + 1) rest
               (out @ [Error_no_status_field]))
      else status_loop ws view wanted new_status (i + 1) rest out)"

text \<open>
  The handler of the button of the status form. An exception of \<open>get_all_records\<close> ends
  it before anything is written.
\<close>

definition apply_status ::
  "spreadsheet \<Rightarrow> sheet_view \<Rightarrow> string \<Rightarrow> string \<Rightarrow> error + (spreadsheet \<times> notice list)" where
  "apply_status sh view booking_id_to_change new_status =
     (if strip booking_id_to_change = [] then Inr (sh, [Warning_give_id])
      else
        (let ws = Bookings sh in
         case all_records view of
           Inl e \<Rightarrow> Inl e
         | Inr rows \<Rightarrow>
             (case status_loop ws view (strip booking_id_to_change) new_status 2 rows [] of
                (ws', out, updated) \<Rightarrow>
                  Inr (sh\<lparr>Bookings := ws'\<rparr>,
                       if \<not> updated then out @ [Error_id_not_found] else out))))"

definition add_service :: "spreadsheet \<Rightarrow> string \<Rightarrow> int \<Rightarrow> string \<Rightarrow> spreadsheet \<times> notice list" where
  "add_service sh new_service new_duration new_price =
     (if strip new_service \<noteq> [] then
        (sh\<lparr>Services := append_row (Services sh)
               [Str (strip new_service), Num new_duration, Str (strip new_price)]\<rparr>,
         [Success_service_added])
      else (sh, []))"

section \<open>Notions used in the statements\<close>

text \<open>
  The number of times the body of the generating loop runs from \<open>cur\<close>: the number of
  \<open>k\<close> with \<open>cur + 30 k + 15 \<le> end_dt\<close>.
\<close>

definition slot_count :: "datetime \<Rightarrow> datetime \<Rightarrow> nat" where
  "slot_count cur end_dt =
     (if cur + 15 \<le> end_dt then nat ((end_dt - cur - 15) div 30) + 1 else 0)"

text \<open>The times \<open>09:00 + 30 k\<close> for \<open>k\<close> below 18, in minutes since midnight.\<close>

definition slot_times :: "time list" where
  "slot_times = map (\<lambda>k. 540 + 30 * k) [0..<18]"

text \<open>
  The test that one pass of the outer loop applies to its slot \<open>s\<close>:
  \<open>not conflict and etime.time() <= WORKING_HOURS[1]\<close>.
\<close>

definition slot_kept :: "date \<Rightarrow> int \<Rightarrow> dataframe \<Rightarrow> string \<Rightarrow> bool" where
  "slot_kept selected_date duration_min day_bookings s =
     (case strptime_HM s of
        Inl e \<Rightarrow> False
      | Inr t \<Rightarrow>
          \<not> conflict_loop selected_date (combine selected_date t)
               (combine selected_date t + duration_min) day_bookings \<and>
          time_of (combine selected_date t + duration_min) \<le> snd WORKING_HOURS)"

section \<open>Properties\<close>

declare gen_loop.simps [simp del]
declare str_nat.simps [simp del]

subsection \<open>Dates and datetimes\<close>

lemma days_in_year_bound:
  assumes "1 \<le> m" "m \<le> 12" "1 \<le> d" "d \<le> days_in_month y m"
  shows "days_before_month y m + d \<le> 365 + (if is_leap y then 1 else 0)"
proof -
  from assms(1,2) have "m \<in> {1, 2, 3, 4, 5, 6, 7, 8, 9, 10, 11, 12}"
    by simp arith
  with assms(3,4) show ?thesis
    by (auto simp: days_before_month_def days_in_month_def split: if_splits)
qed

lemma days_before_year_bound:
  assumes "1 \<le> y" "y \<le> 9999"
  shows "days_before_year y + 365 + (if is_leap y then 1 else 0) \<le> 3652059"
proof (cases "y = 9999")
  case True
  then show ?thesis by (simp add: days_before_year_def is_leap_def)
next
  case False
  with assms have "y \<le> 9998" by simp
  then show ?thesis unfolding days_before_year_def by (simp split: if_splits) arith
qed

lemma toordinal_bounds:
  assumes "valid_date D"
  shows "1 \<le> toordinal D" and "toordinal D \<le> 3652059"
proof -
  from assms show "1 \<le> toordinal D" by (simp add: valid_date_def toordinal_def)
  from assms have a: "days_before_month (year D) (month D) + day D
      \<le> 365 + (if is_leap (year D) then 1 else 0)"
    by (intro days_in_year_bound) (simp_all add: valid_date_def)
  from assms have b:
    "days_before_year (year D) + 365 + (if is_leap (year D) then 1 else 0) \<le> 3652059"
    by (intro days_before_year_bound) (simp_all add: valid_date_def)
  from a b show "toordinal D \<le> 3652059" unfolding toordinal_def by (simp split: if_splits)
qed

lemma combine_range:
  assumes "valid_date D" "t < 1440"
  shows "dt_min \<le> combine D t" and "combine D t \<le> dt_max"
  using toordinal_bounds [OF assms(1)] assms(2)
  by (simp_all add: combine_def dt_min_def dt_max_def)

lemma time_of_combine_add: "time_of (combine D t + n) = nat ((int t + n) mod 1440)"
  by (simp add: time_of_def combine_def add.assoc)

lemma combine_less: "combine D s < combine D t \<longleftrightarrow> s < t"
  by (simp add: combine_def)

subsection \<open>Formatting and parsing a time\<close>

lemma digit_val_chr:
  assumes "n < 10"
  shows "digit_val (digit_chr n) = Some n"
proof -
  from assms have "n \<in> set [0..<10]" by simp
  then show ?thesis
    by (simp add: upt_rec) (auto simp: digit_val_def digit_chr_def)
qed

lemma two_digits_pad2:
  "n < bound \<Longrightarrow> n < 100 \<Longrightarrow>
   two_digits (digit_chr (n div 10)) (digit_chr (n mod 10)) bound = Some n"
  by (simp add: two_digits_def digit_val_chr)

lemma strptime_strftime: "t < 1440 \<Longrightarrow> strptime_HM (strftime_HM t) = Inr t"
proof -
  assume t: "t < 1440"
  then have h: "t div 60 < 24" "t div 60 < 100" and m: "t mod 60 < 60" "t mod 60 < 100"
    by simp_all
  show ?thesis
    by (simp add: strptime_HM_def strftime_HM_def pad2_def two_digits_pad2 [OF h]
        two_digits_pad2 [OF m] mk_time_def)
qed

subsection \<open>The generating loop\<close>

lemma slot_count_step:
  "cur + 15 \<le> end_dt \<Longrightarrow> slot_count cur end_dt = Suc (slot_count (cur + 30) end_dt)"
  unfolding slot_count_def by (auto simp: nat_add_distrib)

lemma slot_count_iff: "k < slot_count cur end_dt \<longleftrightarrow> cur + 30 * int k + 15 \<le> end_dt"
  unfolding slot_count_def by (auto simp: nat_less_iff)

lemma gen_loop_eq:
  "dt_min \<le> cur \<Longrightarrow> cur + 15 \<le> dt_max \<Longrightarrow> end_dt + 30 \<le> dt_max \<Longrightarrow>
   gen_loop cur end_dt acc =
     Inr (acc @ map (\<lambda>k. strftime_HM (time_of (cur + 30 * int k))) [0..<slot_count cur end_dt])"
proof (induction cur end_dt acc rule: gen_loop.induct)
  case (1 cur end_dt slots)
  show ?case
  proof (cases "cur + 15 \<le> end_dt")
    case False
    with 1(2,3) show ?thesis
      by (subst gen_loop.simps) (simp add: dt_add_def slot_count_def)
  next
    case True
    from True 1(2,4) have a15: "dt_add cur 15 = Inr (cur + 15)"
      and a30: "dt_add cur SLOT_MINUTES = Inr (cur + 30)"
      by (simp_all add: dt_add_def SLOT_MINUTES_def)
    have IH: "gen_loop (cur + 30) end_dt (slots @ [strftime_HM (time_of cur)]) =
       Inr ((slots @ [strftime_HM (time_of cur)]) @
         map (\<lambda>k. strftime_HM (time_of (cur + 30 + 30 * int k)))
           [0..<slot_count (cur + 30) end_dt])"
      using 1(1) [OF a15 True a30] True 1(2,4) by simp
    have shift: "map (\<lambda>k. strftime_HM (time_of (cur + 30 * int k))) [0..<Suc n] =
       strftime_HM (time_of cur) #
         map (\<lambda>k. strftime_HM (time_of (cur + 30 + 30 * int k))) [0..<n]" for n
      by (simp only: map_upt_Suc) (simp add: algebra_simps)
    show ?thesis
      by (subst gen_loop.simps)
        (simp add: a15 a30 True IH slot_count_step [OF True] shift del: upt_Suc)
  qed
qed

lemma upt_18: "[0..<18] = [0, 1, 2, 3, 4, 5, 6, 7, 8, 9, 10, 11, 12, 13, 14, 15, 16, 17::nat]"
  by (simp add: upt_rec)

lemma slot_times_eq:
  "slot_times = [540, 570, 600, 630, 660, 690, 720, 750, 780, 810, 840, 870, 900, 930, 960,
     990, 1020, 1050]"
  by (simp add: slot_times_def upt_18)

lemma generate_slots_eq:
  assumes "valid_date D"
  shows "generate_slots D services_df bookings_df = Inr (map strftime_HM slot_times)"
proof -
  have r: "dt_min \<le> combine D 540" "combine D 540 + 15 \<le> dt_max" "combine D 1080 + 30 \<le> dt_max"
    using combine_range [OF assms, of 540] combine_range [OF assms, of 555]
      combine_range [OF assms, of 1110]
    by (simp_all add: combine_def)
  have n: "slot_count (combine D 540) (combine D 1080) = 18"
    by (simp add: slot_count_def combine_def)
  have t: "time_of (combine D 540 + 30 * int k) = 540 + 30 * k" if "k < 18" for k
    using that by (simp add: time_of_combine_add nat_add_distrib nat_mult_distrib)
  show ?thesis
    by (simp add: generate_slots_def WORKING_HOURS_def mk_time_def gen_loop_eq [OF r] n
        slot_times_def t)
qed

lemma slot_strings:
  "map strftime_HM slot_times =
     [''09:00'', ''09:30'', ''10:00'', ''10:30'', ''11:00'', ''11:30'', ''12:00'', ''12:30'',
      ''13:00'', ''13:30'', ''14:00'', ''14:30'', ''15:00'', ''15:30'', ''16:00'', ''16:30'',
      ''17:00'', ''17:30'']"
  by (simp add: slot_times_eq strftime_HM_def pad2_def digit_chr_def)

subsection \<open>The filtering loops\<close>

lemma conflict_loop_iff:
  "conflict_loop D stime etime db \<longleftrightarrow>
     list_ex (\<lambda>rb. case booking_interval D rb of
                     Inl e \<Rightarrow> False
                   | Inr (b_start, b_end) \<Rightarrow> overlaps stime etime b_start b_end) db"
  by (induction db) (auto split: sum.splits)

lemma conflict_loop_append:
  "conflict_loop D stime etime (xs @ ys) \<longleftrightarrow>
     conflict_loop D stime etime xs \<or> conflict_loop D stime etime ys"
  by (simp add: conflict_loop_iff)

lemma conflict_loop_skip:
  "booking_interval D rb = Inl e \<Longrightarrow>
   conflict_loop D stime etime (rb # rest) = conflict_loop D stime etime rest"
  by simp

lemma df_empty_no_conflict: "df_empty db \<Longrightarrow> \<not> conflict_loop D stime etime db"
  by (induction db) (auto simp: df_empty_def booking_interval_def)

lemma conflict_guard:
  "(if \<not> df_empty db then conflict_loop D stime etime db else False) =
     conflict_loop D stime etime db"
  using df_empty_no_conflict by auto

lemma avail_loop_Inr:
  "avail_loop D d db slots acc = Inr xs \<Longrightarrow> xs = acc @ filter (slot_kept D d db) slots"
proof (induction slots arbitrary: acc)
  case Nil
  then show ?case by simp
next
  case (Cons s slots)
  from Cons.prems obtain t where t: "strptime_HM s = Inr t"
    by (cases "strptime_HM s") auto
  from Cons.prems t obtain etime where e: "dt_add (combine D t) d = Inr etime"
    by (cases "dt_add (combine D t) d") (auto simp: Let_def)
  then have etime: "etime = combine D t + d"
    by (auto simp: dt_add_def split: if_splits)
  show ?case
  proof (cases "slot_kept D d db s")
    case True
    with Cons.prems t e etime have "avail_loop D d db slots (acc @ [s]) = Inr xs"
      by (simp add: slot_kept_def conflict_guard)
    from Cons.IH [OF this] True show ?thesis by simp
  next
    case False
    with Cons.prems t e etime have "avail_loop D d db slots acc = Inr xs"
      by (auto simp: slot_kept_def conflict_guard Let_def split: if_splits)
    from Cons.IH [OF this] False show ?thesis by simp
  qed
qed

lemma avail_loop_total:
  assumes "list_all (\<lambda>s. case strptime_HM s of
             Inl e \<Rightarrow> False
           | Inr t \<Rightarrow> dt_min \<le> combine D t + d \<and> combine D t + d \<le> dt_max) slots"
  shows "avail_loop D d db slots acc = Inr (acc @ filter (slot_kept D d db) slots)"
  using assms
proof (induction slots arbitrary: acc)
  case Nil
  then show ?case by simp
next
  case (Cons s slots)
  from Cons.prems obtain t where t: "strptime_HM s = Inr t"
    and r: "dt_min \<le> combine D t + d" "combine D t + d \<le> dt_max"
    by (cases "strptime_HM s") auto
  from r have e: "dt_add (combine D t) d = Inr (combine D t + d)"
    by (simp add: dt_add_def)
  from Cons.prems have rest: "list_all (\<lambda>s. case strptime_HM s of
             Inl e \<Rightarrow> False
           | Inr t \<Rightarrow> dt_min \<le> combine D t + d \<and> combine D t + d \<le> dt_max) slots"
    by simp
  show ?case
    by (simp add: t e conflict_guard Cons.IH [OF rest] slot_kept_def)
qed

subsection \<open>The available slots of a day\<close>

lemma slot_times_bound: "t \<in> set slot_times \<Longrightarrow> 540 \<le> t \<and> t \<le> 1050"
  by (auto simp: slot_times_eq)

lemma strftime_inj:
  assumes s: "s < 1440" and t: "t < 1440" and e: "strftime_HM s = strftime_HM t"
  shows "s = t"
proof -
  have "(Inr s :: error + time) = strptime_HM (strftime_HM s)"
    by (simp only: strptime_strftime [OF s])
  also have "\<dots> = strptime_HM (strftime_HM t)" by (simp only: e)
  also have "\<dots> = Inr t" by (rule strptime_strftime [OF t])
  finally show ?thesis by simp
qed

lemma slot_kept_strftime:
  "t < 1440 \<Longrightarrow> slot_kept D d db (strftime_HM t) \<longleftrightarrow>
     \<not> conflict_loop D (combine D t) (combine D t + d) db \<and>
     nat ((int t + d) mod 1440) \<le> 1080"
  by (simp add: slot_kept_def strptime_strftime time_of_combine_add WORKING_HOURS_def
      mk_time_def)

lemma filter_slot_kept:
  "filter (slot_kept D d db) (map strftime_HM slot_times) =
     map strftime_HM
       (filter (\<lambda>t. \<not> conflict_loop D (combine D t) (combine D t + d) db \<and>
                     nat ((int t + d) mod 1440) \<le> 1080) slot_times)"
proof -
  have "filter (slot_kept D d db \<circ> strftime_HM) slot_times =
      filter (\<lambda>t. \<not> conflict_loop D (combine D t) (combine D t + d) db \<and>
                     nat ((int t + d) mod 1440) \<le> 1080) slot_times"
  proof (rule filter_cong [OF refl])
    fix t assume "t \<in> set slot_times"
    from slot_times_bound [OF this] have "t < 1440" by simp
    then show "(slot_kept D d db \<circ> strftime_HM) t =
        (\<not> conflict_loop D (combine D t) (combine D t + d) db \<and>
         nat ((int t + d) mod 1440) \<le> 1080)"
      by (simp add: slot_kept_strftime)
  qed
  then show ?thesis by (simp add: filter_map)
qed

lemma avail_slots_Inr:
  assumes D: "valid_date D" and r: "avail_slots D d services_df bookings_df = Inr xs"
  shows "\<exists>db. day_bookings_of D bookings_df = Inr db \<and>
           xs = map strftime_HM
             (filter (\<lambda>t. \<not> conflict_loop D (combine D t) (combine D t + d) db \<and>
                           nat ((int t + d) mod 1440) \<le> 1080) slot_times)"
proof -
  from r obtain db where db: "day_bookings_of D bookings_df = Inr db"
    and l: "avail_loop D d db (map strftime_HM slot_times) [] = Inr xs"
    by (auto simp: avail_slots_def generate_slots_eq [OF D] split: sum.splits)
  from avail_loop_Inr [OF l] have "xs = filter (slot_kept D d db) (map strftime_HM slot_times)"
    by simp
  with db show ?thesis by (simp add: filter_slot_kept)
qed

lemma avail_slots_eval:
  assumes D: "valid_date D" and db: "day_bookings_of D bookings_df = Inr db"
    and lo: "dt_min \<le> combine D 540 + d" and hi: "combine D 1050 + d \<le> dt_max"
  shows "avail_slots D d services_df bookings_df =
           Inr (map strftime_HM
             (filter (\<lambda>t. \<not> conflict_loop D (combine D t) (combine D t + d) db \<and>
                           nat ((int t + d) mod 1440) \<le> 1080) slot_times))"
proof -
  have "list_all (\<lambda>s. case strptime_HM s of
             Inl e \<Rightarrow> False
           | Inr t \<Rightarrow> dt_min \<le> combine D t + d \<and> combine D t + d \<le> dt_max)
          (map strftime_HM slot_times)"
    unfolding list_all_iff
  proof
    fix s assume "s \<in> set (map strftime_HM slot_times)"
    then obtain t where t: "t \<in> set slot_times" and s: "s = strftime_HM t" by auto
    from slot_times_bound [OF t] have b: "540 \<le> t" "t \<le> 1050" by simp_all
    then have p: "strptime_HM s = Inr t" unfolding s by (intro strptime_strftime) simp
    from b lo hi have "dt_min \<le> combine D t + d \<and> combine D t + d \<le> dt_max"
      by (simp add: combine_def)
    with p show "case strptime_HM s of Inl e \<Rightarrow> False
        | Inr t \<Rightarrow> dt_min \<le> combine D t + d \<and> combine D t + d \<le> dt_max"
      by simp
  qed
  from avail_loop_total [OF this] show ?thesis
    by (simp add: avail_slots_def generate_slots_eq [OF D] db filter_slot_kept)
qed

lemma day_bookings_of_Nil: "day_bookings_of D [] = Inr []"
  by (simp add: day_bookings_of_def df_empty_def)

lemma same_day_range:
  assumes "valid_date D" "0 \<le> d" "d < 390"
  shows "dt_min \<le> combine D 540 + d" and "combine D 1050 + d \<le> dt_max"
  using combine_range [OF assms(1), of 540] combine_range [OF assms(1), of 1439] assms(2,3)
  by (simp_all add: combine_def)

lemma overlaps_combine:
  "overlaps (combine D t) (combine D t + d) (combine D bs) (combine D be) \<longleftrightarrow>
     t < be \<and> int t + d > int bs"
  by (auto simp: overlaps_def combine_def)

text \<open>
  For a duration below 390 minutes no slot ends after midnight, and a slot is returned
  exactly when it ends by 18:00 and overlaps no booking whose times parse.
\<close>

lemma avail_slots_iff:
  assumes D: "valid_date D" and d: "0 < d" "d < 390"
    and db: "day_bookings_of D bookings_df = Inr db" and t: "t \<in> set slot_times"
  shows "\<exists>xs. avail_slots D d services_df bookings_df = Inr xs \<and>
           (strftime_HM t \<in> set xs \<longleftrightarrow>
              int t + d \<le> 1080 \<and>
              \<not> list_ex (\<lambda>rb. case booking_interval D rb of
                                 Inl e \<Rightarrow> False
                               | Inr (b_start, b_end) \<Rightarrow>
                                   overlaps (combine D t) (combine D t + d) b_start b_end) db)"
proof -
  let ?Q = "\<lambda>t. \<not> conflict_loop D (combine D t) (combine D t + d) db \<and>
                 nat ((int t + d) mod 1440) \<le> 1080"
  from d have d0: "0 \<le> d" by simp
  have e: "avail_slots D d services_df bookings_df = Inr (map strftime_HM (filter ?Q slot_times))"
    by (rule avail_slots_eval [OF D db same_day_range [OF D d0 d(2)]])
  from slot_times_bound [OF t] have tb: "540 \<le> t" "t \<le> 1050" by simp_all
  have "strftime_HM t \<in> set (map strftime_HM (filter ?Q slot_times)) \<longleftrightarrow> ?Q t"
  proof
    assume "strftime_HM t \<in> set (map strftime_HM (filter ?Q slot_times))"
    then obtain u where u: "u \<in> set slot_times" "?Q u" "strftime_HM t = strftime_HM u"
      by auto
    from slot_times_bound [OF u(1)] tb have "t = u"
      by (intro strftime_inj [OF _ _ u(3)]) simp_all
    with u(2) show "?Q t" by simp
  next
    assume "?Q t"
    with t show "strftime_HM t \<in> set (map strftime_HM (filter ?Q slot_times))" by simp
  qed
  moreover from tb d have "(int t + d) mod 1440 = int t + d"
    by simp
  then have "nat ((int t + d) mod 1440) \<le> 1080 \<longleftrightarrow> int t + d \<le> 1080"
    by (simp only: nat_le_iff) simp
  ultimately show ?thesis
    by (auto simp: e conflict_loop_iff)
qed


subsection \<open>A day without bookings\<close>

lemma avail_slots_no_bookings:
  assumes "valid_date D" "dt_min \<le> combine D 540 + d" "combine D 1050 + d \<le> dt_max"
  shows "avail_slots D d services_df [] =
           Inr (map strftime_HM (filter (\<lambda>t. nat ((int t + d) mod 1440) \<le> 1080) slot_times))"
  by (simp add: avail_slots_eval [OF assms(1) day_bookings_of_Nil assms(2,3)])

lemma example_day:
  "valid_date \<lparr>year = 2026, month = 11, day = 3\<rparr>"
  "toordinal \<lparr>year = 2026, month = 11, day = 3\<rparr> = 739923"
  by (simp_all add: valid_date_def days_in_month_def toordinal_def days_before_year_def
      days_before_month_def is_leap_def)

lemma avail_slots_480_no_bookings:
  "avail_slots \<lparr>year = 2026, month = 11, day = 3\<rparr> 480 [] [] =
     Inr [''09:00'', ''09:30'', ''10:00'', ''16:00'', ''16:30'', ''17:00'', ''17:30'']"
proof -
  have "avail_slots \<lparr>year = 2026, month = 11, day = 3\<rparr> 480 [] [] =
      Inr (map strftime_HM (filter (\<lambda>t. nat ((int t + 480) mod 1440) \<le> 1080) slot_times))"
    by (rule avail_slots_no_bookings [OF example_day(1)])
      (simp_all add: combine_def example_day(2) dt_min_def dt_max_def)
  then show ?thesis
    by (simp add: slot_times_eq strftime_HM_def pad2_def digit_chr_def)
qed

text \<open>
  The first scenario of the specification: with a duration of 60 minutes and no bookings
  the slots from 09:00 to 17:00 are returned, and 17:30 is not.
\<close>

lemma avail_slots_60_no_bookings:
  assumes "valid_date D"
  shows "avail_slots D 60 services_df [] =
           Inr [''09:00'', ''09:30'', ''10:00'', ''10:30'', ''11:00'', ''11:30'', ''12:00'',
                ''12:30'', ''13:00'', ''13:30'', ''14:00'', ''14:30'', ''15:00'', ''15:30'',
                ''16:00'', ''16:30'', ''17:00'']"
proof -
  have "avail_slots D 60 services_df [] =
      Inr (map strftime_HM (filter (\<lambda>t. nat ((int t + 60) mod 1440) \<le> 1080) slot_times))"
    by (rule avail_slots_no_bookings [OF assms same_day_range [OF assms]]) simp_all
  then show ?thesis
    by (simp add: slot_times_eq strftime_HM_def pad2_def digit_chr_def)
qed

subsection \<open>Bookings that the conflict check skips\<close>

lemma avail_loop_skip_row:
  assumes "booking_interval D rb = Inl e"
  shows "avail_loop D d (bs1 @ rb # bs2) slots acc = avail_loop D d (bs1 @ bs2) slots acc"
proof (induction slots arbitrary: acc)
  case Nil
  show ?case by simp
next
  case (Cons s slots)
  have c: "conflict_loop D stime etime (bs1 @ rb # bs2) = conflict_loop D stime etime (bs1 @ bs2)"
    for stime etime
    using assms by (simp add: conflict_loop_append)
  show ?case
    by (simp add: conflict_guard c Cons.IH cong: sum.case_cong)
qed

lemma day_bookings_of_dated:
  assumes "list_all (\<lambda>r. map_of r ''date'' \<noteq> None) bookings_df"
  shows "day_bookings_of D bookings_df =
           Inr (filter (\<lambda>r. map_of r ''date'' = Some (Str (isoformat D))) bookings_df)"
proof (cases bookings_df)
  case Nil
  then show ?thesis by (simp add: day_bookings_of_def df_empty_def)
next
  case (Cons r rs)
  with assms have "map_of r ''date'' \<noteq> None" by simp
  then have "r \<noteq> []" by auto
  with Cons assms show ?thesis
    by (auto simp: day_bookings_of_def df_empty_def has_column_def)
qed

lemma booking_interval_unparsed:
  assumes "map_of rb ''start_time'' = Some c1" "map_of rb ''end_time'' = Some c2"
    and "isl (cell_strptime c1) \<or> isl (cell_strptime c2)"
  shows "isl (booking_interval D rb)"
  using assms by (auto simp: booking_interval_def split: sum.splits)

lemma example_iso: "isoformat \<lparr>year = 2026, month = 11, day = 3\<rparr> = ''2026-11-03''"
  by (simp add: isoformat_def pad4_def pad2_def digit_chr_def)

text \<open>
  The second scenario of the specification: one booking from 10:00 to 11:00 and a
  duration of 60 minutes. 09:00 and 11:00 touch the booking and are returned; 09:30,
  10:00 and 10:30 overlap it.
\<close>

lemma avail_slots_one_booking:
  "avail_slots \<lparr>year = 2026, month = 11, day = 3\<rparr> 60 []
     [[(''date'', Str ''2026-11-03''), (''start_time'', Str ''10:00''),
       (''end_time'', Str ''11:00'')]] =
     Inr [''09:00'', ''11:00'', ''11:30'', ''12:00'', ''12:30'', ''13:00'', ''13:30'',
          ''14:00'', ''14:30'', ''15:00'', ''15:30'', ''16:00'', ''16:30'', ''17:00'']"
proof -
  let ?D = "\<lparr>year = 2026, month = 11, day = 3\<rparr>"
  let ?b = "[(''date'', Str ''2026-11-03''), (''start_time'', Str ''10:00''),
             (''end_time'', Str ''11:00'')]"
  have db: "day_bookings_of ?D [?b] = Inr [?b]"
    by (simp add: day_bookings_of_def df_empty_def has_column_def example_iso)
  have bi: "booking_interval ?D ?b = Inr (combine ?D 600, combine ?D 660)"
    by (simp add: booking_interval_def strptime_HM_def two_digits_def digit_val_def mk_time_def)
  have c: "conflict_loop ?D (combine ?D t) (combine ?D t + 60) [?b] \<longleftrightarrow>
      t < 660 \<and> int t + 60 > 600" for t
    by (simp add: bi overlaps_combine del: booking_interval_def)
  have "avail_slots ?D 60 [] [?b] =
      Inr (map strftime_HM
        (filter (\<lambda>t. \<not> conflict_loop ?D (combine ?D t) (combine ?D t + 60) [?b] \<and>
                      nat ((int t + 60) mod 1440) \<le> 1080) slot_times))"
    by (rule avail_slots_eval [OF example_day(1) db same_day_range [OF example_day(1)]])
      simp_all
  also have "filter (\<lambda>t. \<not> conflict_loop ?D (combine ?D t) (combine ?D t + 60) [?b] \<and>
                      nat ((int t + 60) mod 1440) \<le> 1080) slot_times =
      filter (\<lambda>t. \<not> (t < 660 \<and> int t + 60 > 600) \<and> nat ((int t + 60) mod 1440) \<le> 1080)
        slot_times"
    by (simp only: c)
  finally show ?thesis
    by (simp add: slot_times_eq strftime_HM_def pad2_def digit_chr_def)
qed

subsection \<open>The forms\<close>

lemma confirm_booking_blank:
  "strip name = [] \<or> strip phone = [] \<Longrightarrow>
   confirm_booking sh now D selected_time d service_sel name phone note =
     Inr (sh, [Warning_name_phone])"
  by (simp add: confirm_booking_def)

lemma add_service_blank: "strip new_service = [] \<Longrightarrow> add_service sh new_service d p = (sh, [])"
  by (simp add: add_service_def)

lemma add_service_named:
  "strip new_service \<noteq> [] \<Longrightarrow>
   add_service sh new_service d p =
     (sh\<lparr>Services := Services sh @ [[Str (strip new_service), Num d, Str (strip p)]]\<rparr>,
      [Success_service_added])"
  by (simp add: add_service_def append_row_def)

lemma save_booking_id:
  "save_booking sh now b = Inr (sh', booking_id) \<Longrightarrow> booking_id = stamp_ms now"
  by (auto simp: save_booking_def Let_def split: sum.splits)

lemma confirm_booking_id:
  "confirm_booking sh now D selected_time d service_sel name phone note =
     Inr (sh', [Success_booked booking_id]) \<Longrightarrow> booking_id = stamp_ms now"
  by (auto simp: confirm_booking_def Let_def split: if_splits sum.splits dest: save_booking_id)

lemma confirm_booking_eval:
  assumes "strip name \<noteq> []" "strip phone \<noteq> []"
    and "strptime_HM selected_time = Inr t" and "dt_add (combine D t) d = Inr etime"
  shows "confirm_booking sh now D selected_time d service_sel name phone note =
           Inr (sh\<lparr>Bookings := Bookings sh @
                  [[Num (stamp_ms now), Str (isoformat D), Str selected_time,
                    Str (strftime_HM (nat ((int t + d) mod 1440))), Str service_sel, Num d,
                    Str (strip name), Str (strip phone), Str ''booked'', Str (strip note),
                    Str (stamp_iso now)]]\<rparr>,
                [Success_booked (stamp_ms now)])"
proof -
  from assms(4) have "etime = combine D t + d"
    by (auto simp: dt_add_def split: if_splits)
  then have "time_of etime = nat ((int t + d) mod 1440)"
    by (simp add: time_of_combine_add)
  with assms show ?thesis
    by (simp add: confirm_booking_def save_booking_def getitem_def append_row_def Let_def)
qed

lemma example_sheet_booking:
  assumes "strip name \<noteq> []" "strip phone \<noteq> []"
    and "strptime_HM selected_time = Inr t" "540 \<le> t" "t \<le> 1050" "0 \<le> d" "d < 390"
  shows "confirm_booking sh now \<lparr>year = 2026, month = 11, day = 3\<rparr> selected_time d
           service_sel name phone note =
           Inr (sh\<lparr>Bookings := Bookings sh @
                  [[Num (stamp_ms now), Str ''2026-11-03'', Str selected_time,
                    Str (strftime_HM (t + nat d)), Str service_sel, Num d,
                    Str (strip name), Str (strip phone), Str ''booked'', Str (strip note),
                    Str (stamp_iso now)]]\<rparr>,
                [Success_booked (stamp_ms now)])"
proof -
  let ?D = "\<lparr>year = 2026, month = 11, day = 3\<rparr>"
  from assms(4-7) have "dt_add (combine ?D t) d = Inr (combine ?D t + d)"
    by (simp add: dt_add_def combine_def example_day(2) dt_min_def dt_max_def)
  from confirm_booking_eval [OF assms(1-3) this] assms(4-7) show ?thesis
    by (simp add: example_iso nat_add_distrib)
qed

text \<open>
  The row that a submission of the booking form appends when it passes the check of name
  and phone and raises no exception, cell by cell under the header of the bookings sheet.
  The end is the time of day of the start plus the duration; it is the start plus the
  duration in minutes where that is before midnight.
\<close>

lemma confirm_booking_appends:
  assumes "strip name \<noteq> []" and "strip phone \<noteq> []"
    and "strptime_HM selected_time = Inr t" and "dt_add (combine D t) d = Inr etime"
  shows "confirm_booking sh now D selected_time d service_sel name phone note =
           Inr (sh\<lparr>Bookings := Bookings sh @
                  [map snd
                    [(''id'', Num (stamp_ms now)),
                     (''date'', Str (isoformat D)),
                     (''start_time'', Str selected_time),
                     (''end_time'', Str (strftime_HM (time_of (combine D t + d)))),
                     (''service'', Str service_sel),
                     (''duration_min'', Num d),
                     (''name'', Str (strip name)),
                     (''phone'', Str (strip phone)),
                     (''status'', Str ''booked''),
                     (''note'', Str (strip note)),
                     (''created_at'', Str (stamp_iso now))]]\<rparr>,
                [Success_booked (stamp_ms now)]) \<and>
         map fst
           [(''id'', Num (stamp_ms now)),
            (''date'', Str (isoformat D)),
            (''start_time'', Str selected_time),
            (''end_time'', Str (strftime_HM (time_of (combine D t + d)))),
            (''service'', Str service_sel),
            (''duration_min'', Num d),
            (''name'', Str (strip name)),
            (''phone'', Str (strip phone)),
            (''status'', Str ''booked''),
            (''note'', Str (strip note)),
            (''created_at'', Str (stamp_iso now))] = BOOKINGS_HEADER \<and>
         strptime_HM (strftime_HM (time_of (combine D t + d))) =
           Inr (nat ((int t + d) mod 1440)) \<and>
         (0 \<le> d \<and> int t + d < 1440 \<longrightarrow>
            strptime_HM (strftime_HM (time_of (combine D t + d))) = Inr (t + nat d))"
proof -
  have m: "nat ((int t + d) mod 1440) < 1440" by simp
  have p: "strptime_HM (strftime_HM (time_of (combine D t + d))) =
      Inr (nat ((int t + d) mod 1440))"
    by (simp add: time_of_combine_add strptime_strftime [OF m])
  have w: "nat ((int t + d) mod 1440) = t + nat d" if "0 \<le> d \<and> int t + d < 1440"
    using that by (simp add: nat_add_distrib)
  have q: "0 \<le> d \<and> int t + d < 1440 \<longrightarrow>
      strptime_HM (strftime_HM (time_of (combine D t + d))) = Inr (t + nat d)"
    using p w by simp
  have r: "confirm_booking sh now D selected_time d service_sel name phone note =
           Inr (sh\<lparr>Bookings := Bookings sh @
                  [map snd
                    [(''id'', Num (stamp_ms now)),
                     (''date'', Str (isoformat D)),
                     (''start_time'', Str selected_time),
                     (''end_time'', Str (strftime_HM (time_of (combine D t + d)))),
                     (''service'', Str service_sel),
                     (''duration_min'', Num d),
                     (''name'', Str (strip name)),
                     (''phone'', Str (strip phone)),
                     (''status'', Str ''booked''),
                     (''note'', Str (strip note)),
                     (''created_at'', Str (stamp_iso now))]]\<rparr>,
                [Success_booked (stamp_ms now)])"
    by (simp add: confirm_booking_eval [OF assms] time_of_combine_add)
  show ?thesis
    using p q r by (simp add: BOOKINGS_HEADER_def)
qed

subsection \<open>Writing one cell\<close>

lemma pad_row_length: "length (pad_row n r) = max (length r) n"
  by (simp add: pad_row_def)

lemma pad_row_nth:
  "b < max (length r) n \<Longrightarrow> pad_row n r ! b = (if b < length r then r ! b else Str [])"
  by (simp add: pad_row_def nth_append)

lemma cell_at_extend: "cell_at (ws @ replicate n []) a b = cell_at ws a b"
  by (auto simp: cell_at_def nth_append)

lemma update_cell_inside:
  "1 \<le> i \<Longrightarrow> i \<le> length ws \<Longrightarrow> 1 \<le> col \<Longrightarrow>
   update_cell ws i col v = ws[i - 1 := (pad_row col (ws ! (i - 1)))[col - 1 := v]]"
  by (simp add: update_cell_def)

lemma update_cell_extend:
  "1 \<le> i \<Longrightarrow> 1 \<le> col \<Longrightarrow>
   update_cell ws i col v = update_cell (ws @ replicate (i - length ws) []) i col v"
  by (simp add: update_cell_def Let_def)

lemma update_cell_length:
  "1 \<le> i \<Longrightarrow> i \<le> length ws \<Longrightarrow> length (update_cell ws i col v) = length ws"
  by (simp add: update_cell_def)

lemma update_cell_written_inside:
  assumes "1 \<le> i" "i \<le> length ws" "1 \<le> col"
  shows "cell_at (update_cell ws i col v) (i - 1) (col - 1) = v"
proof -
  from assms have a: "i - 1 < length ws" and c: "col - 1 < max (length (ws ! (i - 1))) col"
    by simp_all
  then show ?thesis
    by (simp add: update_cell_inside [OF assms] cell_at_def pad_row_length)
qed

lemma update_cell_other_inside:
  assumes "1 \<le> i" "i \<le> length ws" "1 \<le> col" "(a, b) \<noteq> (i - 1, col - 1)"
  shows "cell_at (update_cell ws i col v) a b = cell_at ws a b"
proof (cases "a = i - 1")
  case False
  then show ?thesis
    by (simp add: update_cell_inside [OF assms(1-3)] cell_at_def)
next
  case True
  with assms(4) have b: "b \<noteq> col - 1" by simp
  from assms(1,2) True have a: "a < length ws" by simp
  let ?r = "ws ! a"
  have "cell_at (update_cell ws i col v) a b =
      (if b < max (length ?r) col then pad_row col ?r ! b else Str [])"
    using a b True by (simp add: update_cell_inside [OF assms(1-3)] cell_at_def pad_row_length)
  also have "\<dots> = (if b < length ?r then ?r ! b else Str [])"
    by (auto simp: pad_row_nth)
  also have "\<dots> = cell_at ws a b"
    using a by (simp add: cell_at_def)
  finally show ?thesis .
qed

lemma update_cell_written:
  assumes "1 \<le> i" "1 \<le> col"
  shows "cell_at (update_cell ws i col v) (i - 1) (col - 1) = v"
proof -
  let ?ws = "ws @ replicate (i - length ws) []"
  have l: "i \<le> length ?ws" by simp
  show ?thesis
    by (subst update_cell_extend [OF assms])
      (rule update_cell_written_inside [OF assms(1) l assms(2)])
qed

lemma update_cell_other:
  assumes "1 \<le> i" "1 \<le> col" "(a, b) \<noteq> (i - 1, col - 1)"
  shows "cell_at (update_cell ws i col v) a b = cell_at ws a b"
proof -
  let ?ws = "ws @ replicate (i - length ws) []"
  have l: "i \<le> length ?ws" by simp
  have "cell_at (update_cell ws i col v) a b = cell_at (update_cell ?ws i col v) a b"
    by (subst update_cell_extend [OF assms(1,2)]) (rule refl)
  also have "\<dots> = cell_at ?ws a b"
    by (rule update_cell_other_inside [OF assms(1) l assms(2,3)])
  also have "\<dots> = cell_at ws a b"
    by (rule cell_at_extend)
  finally show ?thesis .
qed

subsection \<open>The loop of the status form\<close>

lemma status_loop_none:
  "\<forall>r\<in>set rows. py_str (map_of r ''id'') \<noteq> wanted \<Longrightarrow>
   status_loop ws view wanted new_status i rows out = (ws, out, False)"
  by (induction rows arbitrary: i out) simp_all

lemma status_loop_no_header:
  "index_of (first_row view) ''status'' = None \<Longrightarrow>
   fst (status_loop ws view wanted new_status i rows out) = ws"
  by (induction rows arbitrary: i out) simp_all

lemma status_loop_first:
  "index_of (first_row view) ''status'' = Some k \<Longrightarrow>
   \<forall>r\<in>set pre. py_str (map_of r ''id'') \<noteq> wanted \<Longrightarrow>
   py_str (map_of r ''id'') = wanted \<Longrightarrow>
   status_loop ws view wanted new_status i (pre @ r # post) out =
     (update_cell ws (i + length pre) (k + 1) (Str new_status), out @ [Success_updated], True)"
  by (induction pre arbitrary: i out) simp_all

lemma apply_status_blank:
  "strip booking_id_to_change = [] \<Longrightarrow>
   apply_status sh view booking_id_to_change new_status = Inr (sh, [Warning_give_id])"
  by (simp add: apply_status_def)

lemma apply_status_raises:
  "strip booking_id_to_change \<noteq> [] \<Longrightarrow> all_records view = Inl e \<Longrightarrow>
   apply_status sh view booking_id_to_change new_status = Inl e"
  by (simp add: apply_status_def)

lemma apply_status_none:
  assumes "strip booking_id_to_change \<noteq> []" and "all_records view = Inr rows"
    and "\<forall>r\<in>set rows. py_str (map_of r ''id'') \<noteq> strip booking_id_to_change"
  shows "apply_status sh view booking_id_to_change new_status = Inr (sh, [Error_id_not_found])"
  using assms by (simp add: apply_status_def status_loop_none)

lemma apply_status_no_header:
  assumes "all_records view = Inr rows" and "index_of (first_row view) ''status'' = None"
  shows "\<exists>out. apply_status sh view booking_id_to_change new_status = Inr (sh, out)"
proof (cases "strip booking_id_to_change = []")
  case True
  then show ?thesis by (simp add: apply_status_def)
next
  case False
  obtain ws' out updated where l: "status_loop (Bookings sh) view (strip booking_id_to_change)
      new_status 2 rows [] = (ws', out, updated)"
    by (cases "status_loop (Bookings sh) view (strip booking_id_to_change) new_status 2
        rows []") auto
  from status_loop_no_header [OF assms(2), of "Bookings sh" "strip booking_id_to_change"
      new_status 2 rows "[]"] l
  have "ws' = Bookings sh" by simp
  with False l assms(1) show ?thesis by (simp add: apply_status_def)
qed

lemma apply_status_first:
  assumes "strip booking_id_to_change \<noteq> []"
    and "all_records view = Inr (pre @ r # post)"
    and "\<forall>r'\<in>set pre. py_str (map_of r' ''id'') \<noteq> strip booking_id_to_change"
    and "py_str (map_of r ''id'') = strip booking_id_to_change"
    and "index_of (first_row view) ''status'' = Some k"
  shows "apply_status sh view booking_id_to_change new_status =
           Inr (sh\<lparr>Bookings :=
                      update_cell (Bookings sh) (length pre + 2) (k + 1) (Str new_status)\<rparr>,
                [Success_updated])"
  using assms(1) status_loop_first [OF assms(5,3,4), of "Bookings sh" new_status 2 post "[]"]
  by (simp add: apply_status_def assms(2) add.commute)

section \<open>The claims\<close>

text \<open>
  C1: a candidate is returned if and only if its start plus the duration is at or before
  18:00 and it overlaps no booking. The code compares the time of day of the end with
  18:00: on 2026-11-03, with a duration of 480 minutes and no bookings, the slot 16:00 is
  returned although 16:00 plus 480 minutes is after 18:00.
\<close>

theorem avail_slots_end_after_midnight:
  "avail_slots \<lparr>year = 2026, month = 11, day = 3\<rparr> 480 [] [] =
     Inr [''09:00'', ''09:30'', ''10:00'', ''16:00'', ''16:30'', ''17:00'', ''17:30''] \<and>
   strptime_HM ''16:00'' = Inr 960 \<and>
   \<not> 960 + 480 \<le> snd WORKING_HOURS"
proof -
  have "strptime_HM ''16:00'' = Inr 960"
    by (simp add: strptime_HM_def two_digits_def digit_val_def mk_time_def)
  moreover have "\<not> 960 + 480 \<le> snd WORKING_HOURS"
    by (simp add: WORKING_HOURS_def mk_time_def)
  ultimately show ?thesis
    using avail_slots_480_no_bookings by blast
qed

text \<open>
  C2: for a date \<open>D\<close>, the generator returns the strings of the times
  \<open>opening + 30 k\<close>, in the order of \<open>k\<close>, for exactly those \<open>k\<close> for which that time
  plus 15 minutes is at or before closing; no duration enters. With 09:00 and 18:00 these
  are the eighteen strings from 09:00 to 17:30, and 17:45 is not among them.
\<close>

theorem generate_slots_candidates:
  assumes "valid_date D"
  shows "(\<exists>n. generate_slots D services_df bookings_df =
              Inr (map (\<lambda>k. strftime_HM (fst WORKING_HOURS + 30 * k)) [0..<n]) \<and>
            (\<forall>k. k < n \<longleftrightarrow> fst WORKING_HOURS + 30 * k + 15 \<le> snd WORKING_HOURS)) \<and>
         generate_slots D services_df bookings_df =
           Inr [''09:00'', ''09:30'', ''10:00'', ''10:30'', ''11:00'', ''11:30'', ''12:00'',
                ''12:30'', ''13:00'', ''13:30'', ''14:00'', ''14:30'', ''15:00'', ''15:30'',
                ''16:00'', ''16:30'', ''17:00'', ''17:30''] \<and>
         (\<forall>xs. generate_slots D services_df bookings_df = Inr xs \<longrightarrow>
               strftime_HM (mk_time 17 45) \<notin> set xs)"
proof -
  have g: "generate_slots D services_df bookings_df = Inr (map strftime_HM slot_times)"
    by (rule generate_slots_eq [OF assms])
  have "generate_slots D services_df bookings_df =
      Inr (map (\<lambda>k. strftime_HM (fst WORKING_HOURS + 30 * k)) [0..<18]) \<and>
    (\<forall>k. k < 18 \<longleftrightarrow> fst WORKING_HOURS + 30 * k + 15 \<le> snd WORKING_HOURS)"
    by (auto simp: g slot_times_def WORKING_HOURS_def mk_time_def comp_def)
  then have a: "\<exists>n. generate_slots D services_df bookings_df =
              Inr (map (\<lambda>k. strftime_HM (fst WORKING_HOURS + 30 * k)) [0..<n]) \<and>
            (\<forall>k. k < n \<longleftrightarrow> fst WORKING_HOURS + 30 * k + 15 \<le> snd WORKING_HOURS)"
    by blast
  have b: "generate_slots D services_df bookings_df =
           Inr [''09:00'', ''09:30'', ''10:00'', ''10:30'', ''11:00'', ''11:30'', ''12:00'',
                ''12:30'', ''13:00'', ''13:30'', ''14:00'', ''14:30'', ''15:00'', ''15:30'',
                ''16:00'', ''16:30'', ''17:00'', ''17:30'']"
    by (simp only: g slot_strings)
  have "strftime_HM (mk_time 17 45) = ''17:45''"
    by (simp add: strftime_HM_def mk_time_def pad2_def digit_chr_def)
  then have c: "\<forall>xs. generate_slots D services_df bookings_df = Inr xs \<longrightarrow>
               strftime_HM (mk_time 17 45) \<notin> set xs"
    by (simp add: b)
  from a b c show ?thesis by blast
qed

theorem generate_slots_candidates_witness:
  "valid_date \<lparr>year = 2026, month = 11, day = 3\<rparr> \<and>
   generate_slots \<lparr>year = 2026, month = 11, day = 3\<rparr> [] [] =
     Inr [''09:00'', ''09:30'', ''10:00'', ''10:30'', ''11:00'', ''11:30'', ''12:00'',
          ''12:30'', ''13:00'', ''13:30'', ''14:00'', ''14:30'', ''15:00'', ''15:30'',
          ''16:00'', ''16:30'', ''17:00'', ''17:30'']"
proof -
  have v: "valid_date \<lparr>year = 2026, month = 11, day = 3\<rparr>"
    by (simp add: valid_date_def days_in_month_def)
  from generate_slots_candidates [OF v, of "[]" "[]"] v show ?thesis by blast
qed

text \<open>
  C3: a candidate whose end is after closing by any amount is excluded. On 2026-11-03,
  with a duration of 390 minutes and no bookings, the slot 17:30 ends at midnight, six
  hours after closing, and is returned.
\<close>

theorem avail_slots_end_at_midnight:
  "avail_slots \<lparr>year = 2026, month = 11, day = 3\<rparr> 390 [] [] =
     Inr [''09:00'', ''09:30'', ''10:00'', ''10:30'', ''11:00'', ''11:30'', ''17:30''] \<and>
   strptime_HM ''17:30'' = Inr 1050 \<and>
   snd WORKING_HOURS < 1050 + 390"
proof -
  have "avail_slots \<lparr>year = 2026, month = 11, day = 3\<rparr> 390 [] [] =
      Inr (map strftime_HM (filter (\<lambda>t. nat ((int t + 390) mod 1440) \<le> 1080) slot_times))"
    by (rule avail_slots_no_bookings [OF example_day(1)])
      (simp_all add: combine_def example_day(2) dt_min_def dt_max_def)
  then have "avail_slots \<lparr>year = 2026, month = 11, day = 3\<rparr> 390 [] [] =
     Inr [''09:00'', ''09:30'', ''10:00'', ''10:30'', ''11:00'', ''11:30'', ''17:30'']"
    by (simp add: slot_times_eq strftime_HM_def pad2_def digit_chr_def)
  moreover have "strptime_HM ''17:30'' = Inr 1050"
    by (simp add: strptime_HM_def two_digits_def digit_val_def mk_time_def)
  moreover have "snd WORKING_HOURS < 1050 + 390"
    by (simp add: WORKING_HOURS_def mk_time_def)
  ultimately show ?thesis by blast
qed

text \<open>
  C4: a booking whose start time or end time does not parse is skipped by the conflict
  check. In a frame whose rows all have the date column, the slots returned with such a
  booking are those returned without it, and an exception is raised with it only if it is
  raised without it.
\<close>

theorem unparsed_booking_skipped:
  assumes "map_of rb ''start_time'' = Some c1" and "map_of rb ''end_time'' = Some c2"
    and "isl (cell_strptime c1) \<or> isl (cell_strptime c2)"
    and "list_all (\<lambda>r. map_of r ''date'' \<noteq> None) (bs1 @ rb # bs2)"
  shows "avail_slots D d services_df (bs1 @ rb # bs2) = avail_slots D d services_df (bs1 @ bs2)"
proof -
  let ?P = "\<lambda>r. map_of r ''date'' = Some (Str (isoformat D))"
  from booking_interval_unparsed [OF assms(1-3), of D] obtain e
    where e: "booking_interval D rb = Inl e"
    by (cases "booking_interval D rb") auto
  from assms(4) have r: "list_all (\<lambda>r. map_of r ''date'' \<noteq> None) (bs1 @ bs2)"
    by simp
  have f: "avail_loop D d (filter ?P (bs1 @ rb # bs2)) slots [] =
      avail_loop D d (filter ?P (bs1 @ bs2)) slots []" for slots
    using avail_loop_skip_row [OF e, of d "filter ?P bs1" "filter ?P bs2" slots "[]"]
    by simp
  show ?thesis
    by (simp only: avail_slots_def generate_slots_def day_bookings_of_dated [OF assms(4)]
        day_bookings_of_dated [OF r] f sum.case)
qed

theorem unparsed_booking_skipped_witness:
  "map_of [(''date'', Str ''2026-11-03''), (''start_time'', Str ''12:00''),
           (''end_time'', Str ''13.00'')] ''start_time'' = Some (Str ''12:00'') \<and>
   map_of [(''date'', Str ''2026-11-03''), (''start_time'', Str ''12:00''),
           (''end_time'', Str ''13.00'')] ''end_time'' = Some (Str ''13.00'') \<and>
   isl (cell_strptime (Str ''13.00'')) \<and>
   avail_slots \<lparr>year = 2026, month = 11, day = 3\<rparr> 60 []
     [[(''date'', Str ''2026-11-03''), (''start_time'', Str ''10:00''),
       (''end_time'', Str ''11:00'')],
      [(''date'', Str ''2026-11-03''), (''start_time'', Str ''12:00''),
       (''end_time'', Str ''13.00'')]] =
     Inr [''09:00'', ''11:00'', ''11:30'', ''12:00'', ''12:30'', ''13:00'', ''13:30'',
          ''14:00'', ''14:30'', ''15:00'', ''15:30'', ''16:00'', ''16:30'', ''17:00'']"
proof -
  let ?rb = "[(''date'', Str ''2026-11-03''), (''start_time'', Str ''12:00''),
              (''end_time'', Str ''13.00'')]"
  let ?b = "[(''date'', Str ''2026-11-03''), (''start_time'', Str ''10:00''),
             (''end_time'', Str ''11:00'')]"
  have h1: "map_of ?rb ''start_time'' = Some (Str ''12:00'')" by simp
  have h2: "map_of ?rb ''end_time'' = Some (Str ''13.00'')" by simp
  have p: "isl (cell_strptime (Str ''13.00''))"
    by (simp add: strptime_HM_def two_digits_def digit_val_def)
  then have h3: "isl (cell_strptime (Str ''12:00'')) \<or> isl (cell_strptime (Str ''13.00''))"
    by simp
  have h4: "list_all (\<lambda>r. map_of r ''date'' \<noteq> None) ([?b] @ ?rb # [])" by simp
  from unparsed_booking_skipped [OF h1 h2 h3 h4,
      of "\<lparr>year = 2026, month = 11, day = 3\<rparr>" 60 "[]"]
  have "avail_slots \<lparr>year = 2026, month = 11, day = 3\<rparr> 60 [] [?b, ?rb] =
      avail_slots \<lparr>year = 2026, month = 11, day = 3\<rparr> 60 [] [?b]"
    by simp
  with avail_slots_one_booking h1 h2 p show ?thesis by simp
qed

text \<open>
  C5: the result is a function of the selected date, the duration and the bookings (the
  services frame does not enter); the returned slots are a subsequence of the generated
  ones, in strictly increasing order of time and without duplicates. The computation
  returns a value and changes nothing.
\<close>

theorem avail_slots_ordered:
  assumes "valid_date D" and "avail_slots D d services_df bookings_df = Inr xs"
  shows "avail_slots D d services_df' bookings_df = Inr xs \<and>
         generate_slots D services_df bookings_df = Inr (map strftime_HM slot_times) \<and>
         subseq xs (map strftime_HM slot_times) \<and>
         (\<exists>ts. xs = map strftime_HM ts \<and> subseq ts slot_times \<and> sorted_wrt (<) ts) \<and>
         distinct xs"
proof -
  from avail_slots_Inr [OF assms] obtain db Q
    where xs: "xs = map strftime_HM (filter Q slot_times)" by blast
  have same: "avail_slots D d services_df' bookings_df = avail_slots D d services_df bookings_df"
    by (simp add: avail_slots_def generate_slots_def)
  have st: "sorted_wrt (<) slot_times"
    by (simp add: slot_times_eq)
  have inj: "inj_on strftime_HM (set (filter Q slot_times))"
  proof (rule inj_onI)
    fix s t assume "s \<in> set (filter Q slot_times)" "t \<in> set (filter Q slot_times)"
      and e: "strftime_HM s = strftime_HM t"
    then have "s \<in> set slot_times" "t \<in> set slot_times" by simp_all
    from slot_times_bound [OF this(1)] slot_times_bound [OF this(2)] show "s = t"
      by (intro strftime_inj [OF _ _ e]) simp_all
  qed
  from st have d: "distinct (filter Q slot_times)"
    by (simp add: strict_sorted_iff)
  have "subseq xs (map strftime_HM slot_times)"
    unfolding xs by (simp add: subseq_map)
  moreover have "\<exists>ts. xs = map strftime_HM ts \<and> subseq ts slot_times \<and> sorted_wrt (<) ts"
    using xs st by (auto intro!: exI [of _ "filter Q slot_times"] sorted_wrt_filter)
  moreover have "distinct xs"
    unfolding xs using d inj by (simp add: distinct_map)
  ultimately show ?thesis
    using same assms(2) generate_slots_eq [OF assms(1)] by simp
qed

theorem avail_slots_ordered_witness:
  "valid_date \<lparr>year = 2026, month = 11, day = 3\<rparr> \<and>
   avail_slots \<lparr>year = 2026, month = 11, day = 3\<rparr> 60 [] [] =
     Inr [''09:00'', ''09:30'', ''10:00'', ''10:30'', ''11:00'', ''11:30'', ''12:00'',
          ''12:30'', ''13:00'', ''13:30'', ''14:00'', ''14:30'', ''15:00'', ''15:30'',
          ''16:00'', ''16:30'', ''17:00''] \<and>
   distinct [''09:00'', ''09:30'', ''10:00'', ''10:30'', ''11:00'', ''11:30'', ''12:00'',
          ''12:30'', ''13:00'', ''13:30'', ''14:00'', ''14:30'', ''15:00'', ''15:30'',
          ''16:00'', ''16:30'', ''17:00'']"
proof -
  note e = avail_slots_60_no_bookings [OF example_day(1), of "[]"]
  from avail_slots_ordered [OF example_day(1) e] example_day(1) e show ?thesis
    by blast
qed

text \<open>
  C6: every booking that a guest submits is appended with the status \<open>booked\<close>, an id
  read from the clock in milliseconds, its eleven cells in the order of the header, and
  an end time equal to the start time plus the duration of the service. On 2026-11-03,
  for a service of 480 minutes and no bookings, the page offers the slot 17:30; the
  booking made with it is stored with the end time 01:30, which is not 17:30 plus 480
  minutes.
\<close>

theorem confirm_booking_end_wraps:
  "avail_slots \<lparr>year = 2026, month = 11, day = 3\<rparr> 480 [] [] =
     Inr [''09:00'', ''09:30'', ''10:00'', ''16:00'', ''16:30'', ''17:00'', ''17:30''] \<and>
   confirm_booking
      \<lparr>Bookings = [map Str BOOKINGS_HEADER],
       Services = [[Str ''service'', Str ''duration_min'', Str ''price''],
                   [Str ''Toltes'', Num 480, Str ''12000'']]\<rparr>
      \<lparr>stamp_ms = 1793729268524, stamp_iso = ''2026-11-03T17:27:48.524000''\<rparr>
      \<lparr>year = 2026, month = 11, day = 3\<rparr> ''17:30'' 480 ''Toltes'' ''Anna''
      ''+36301234567'' '''' =
     Inr (\<lparr>Bookings =
             [map Str BOOKINGS_HEADER,
              [Num 1793729268524, Str ''2026-11-03'', Str ''17:30'', Str ''01:30'',
               Str ''Toltes'', Num 480, Str ''Anna'', Str ''+36301234567'', Str ''booked'',
               Str '''', Str ''2026-11-03T17:27:48.524000'']],
           Services = [[Str ''service'', Str ''duration_min'', Str ''price''],
                       [Str ''Toltes'', Num 480, Str ''12000'']]\<rparr>,
          [Success_booked 1793729268524]) \<and>
   strptime_HM ''17:30'' = Inr 1050 \<and>
   strptime_HM ''01:30'' = Inr 90 \<and>
   (90 :: nat) \<noteq> 1050 + 480"
proof -
  let ?D = "\<lparr>year = 2026, month = 11, day = 3\<rparr>"
  have h1: "strip ''Anna'' \<noteq> []" and h2: "strip ''+36301234567'' \<noteq> []"
    by (simp_all add: strip_def is_space_def)
  have h3: "strptime_HM ''17:30'' = Inr 1050"
    by (simp add: strptime_HM_def two_digits_def digit_val_def mk_time_def)
  have h4: "dt_add (combine ?D 1050) 480 = Inr (combine ?D 1050 + 480)"
    by (simp add: dt_add_def combine_def example_day(2) dt_min_def dt_max_def)
  have e: "strftime_HM (nat ((int 1050 + 480) mod 1440)) = ''01:30''"
    by (simp add: strftime_HM_def pad2_def digit_chr_def)
  have s: "strip ''Anna'' = ''Anna''" "strip ''+36301234567'' = ''+36301234567''"
    "strip '''' = ''''"
    by (simp_all add: strip_def is_space_def)
  have "confirm_booking
      \<lparr>Bookings = [map Str BOOKINGS_HEADER],
       Services = [[Str ''service'', Str ''duration_min'', Str ''price''],
                   [Str ''Toltes'', Num 480, Str ''12000'']]\<rparr>
      \<lparr>stamp_ms = 1793729268524, stamp_iso = ''2026-11-03T17:27:48.524000''\<rparr>
      ?D ''17:30'' 480 ''Toltes'' ''Anna'' ''+36301234567'' '''' =
     Inr (\<lparr>Bookings =
             [map Str BOOKINGS_HEADER,
              [Num 1793729268524, Str ''2026-11-03'', Str ''17:30'', Str ''01:30'',
               Str ''Toltes'', Num 480, Str ''Anna'', Str ''+36301234567'', Str ''booked'',
               Str '''', Str ''2026-11-03T17:27:48.524000'']],
           Services = [[Str ''service'', Str ''duration_min'', Str ''price''],
                       [Str ''Toltes'', Num 480, Str ''12000'']]\<rparr>,
          [Success_booked 1793729268524])"
    using e by (simp add: confirm_booking_eval [OF h1 h2 h3 h4] s example_iso)
  moreover have "strptime_HM ''01:30'' = Inr 90"
    by (simp add: strptime_HM_def two_digits_def digit_val_def mk_time_def)
  moreover have "(90 :: nat) \<noteq> 1050 + 480" by simp
  ultimately show ?thesis
    using avail_slots_480_no_bookings h3 by blast
qed

text \<open>
  C7: of two submissions in a row the second has the greater id. The id is the clock
  reading in milliseconds, so the second id is greater exactly when the second reading is
  greater than the first.
\<close>

theorem booking_ids_follow_clock:
  assumes "confirm_booking sh now1 D1 t1 d1 s1 n1 p1 note1 = Inr (sh1, [Success_booked id1])"
    and "confirm_booking sh1 now2 D2 t2 d2 s2 n2 p2 note2 = Inr (sh2, [Success_booked id2])"
  shows "id1 = stamp_ms now1 \<and> id2 = stamp_ms now2 \<and>
         (id1 < id2 \<longleftrightarrow> stamp_ms now1 < stamp_ms now2)"
  using confirm_booking_id [OF assms(1)] confirm_booking_id [OF assms(2)] by simp

theorem booking_ids_follow_clock_witness:
  "confirm_booking \<lparr>Bookings = [map Str BOOKINGS_HEADER], Services = []\<rparr>
      \<lparr>stamp_ms = 1793729268524, stamp_iso = ''2026-11-03T17:27:48.524000''\<rparr>
      \<lparr>year = 2026, month = 11, day = 3\<rparr> ''10:00'' 60 ''Manikur'' ''Anna'' ''1'' '''' =
     Inr (\<lparr>Bookings =
             [map Str BOOKINGS_HEADER,
              [Num 1793729268524, Str ''2026-11-03'', Str ''10:00'', Str ''11:00'',
               Str ''Manikur'', Num 60, Str ''Anna'', Str ''1'', Str ''booked'', Str '''',
               Str ''2026-11-03T17:27:48.524000'']],
           Services = []\<rparr>,
          [Success_booked 1793729268524]) \<and>
   confirm_booking
      \<lparr>Bookings =
         [map Str BOOKINGS_HEADER,
          [Num 1793729268524, Str ''2026-11-03'', Str ''10:00'', Str ''11:00'',
           Str ''Manikur'', Num 60, Str ''Anna'', Str ''1'', Str ''booked'', Str '''',
           Str ''2026-11-03T17:27:48.524000'']],
       Services = []\<rparr>
      \<lparr>stamp_ms = 1793729269524, stamp_iso = ''2026-11-03T17:27:49.524000''\<rparr>
      \<lparr>year = 2026, month = 11, day = 3\<rparr> ''11:00'' 60 ''Manikur'' ''Bea'' ''2'' '''' =
     Inr (\<lparr>Bookings =
             [map Str BOOKINGS_HEADER,
              [Num 1793729268524, Str ''2026-11-03'', Str ''10:00'', Str ''11:00'',
               Str ''Manikur'', Num 60, Str ''Anna'', Str ''1'', Str ''booked'', Str '''',
               Str ''2026-11-03T17:27:48.524000''],
              [Num 1793729269524, Str ''2026-11-03'', Str ''11:00'', Str ''12:00'',
               Str ''Manikur'', Num 60, Str ''Bea'', Str ''2'', Str ''booked'', Str '''',
               Str ''2026-11-03T17:27:49.524000'']],
           Services = []\<rparr>,
          [Success_booked 1793729269524]) \<and>
   (1793729268524 :: int) < 1793729269524"
proof -
  have p: "strptime_HM ''10:00'' = Inr 600" "strptime_HM ''11:00'' = Inr 660"
    by (simp_all add: strptime_HM_def two_digits_def digit_val_def mk_time_def)
  have s: "strip ''Anna'' = ''Anna''" "strip ''Bea'' = ''Bea''" "strip ''1'' = ''1''"
    "strip ''2'' = ''2''" "strip '''' = ''''"
    by (simp_all add: strip_def is_space_def)
  have f: "strftime_HM 660 = ''11:00''" "strftime_HM 720 = ''12:00''"
    by (simp_all add: strftime_HM_def pad2_def digit_chr_def)
  have a: "confirm_booking \<lparr>Bookings = [map Str BOOKINGS_HEADER], Services = []\<rparr>
      \<lparr>stamp_ms = 1793729268524, stamp_iso = ''2026-11-03T17:27:48.524000''\<rparr>
      \<lparr>year = 2026, month = 11, day = 3\<rparr> ''10:00'' 60 ''Manikur'' ''Anna'' ''1'' '''' =
     Inr (\<lparr>Bookings =
             [map Str BOOKINGS_HEADER,
              [Num 1793729268524, Str ''2026-11-03'', Str ''10:00'', Str ''11:00'',
               Str ''Manikur'', Num 60, Str ''Anna'', Str ''1'', Str ''booked'', Str '''',
               Str ''2026-11-03T17:27:48.524000'']],
           Services = []\<rparr>,
          [Success_booked 1793729268524])"
    by (subst example_sheet_booking [OF _ _ p(1)]) (simp_all add: s f)
  have b: "confirm_booking
      \<lparr>Bookings =
         [map Str BOOKINGS_HEADER,
          [Num 1793729268524, Str ''2026-11-03'', Str ''10:00'', Str ''11:00'',
           Str ''Manikur'', Num 60, Str ''Anna'', Str ''1'', Str ''booked'', Str '''',
           Str ''2026-11-03T17:27:48.524000'']],
       Services = []\<rparr>
      \<lparr>stamp_ms = 1793729269524, stamp_iso = ''2026-11-03T17:27:49.524000''\<rparr>
      \<lparr>year = 2026, month = 11, day = 3\<rparr> ''11:00'' 60 ''Manikur'' ''Bea'' ''2'' '''' =
     Inr (\<lparr>Bookings =
             [map Str BOOKINGS_HEADER,
              [Num 1793729268524, Str ''2026-11-03'', Str ''10:00'', Str ''11:00'',
               Str ''Manikur'', Num 60, Str ''Anna'', Str ''1'', Str ''booked'', Str '''',
               Str ''2026-11-03T17:27:48.524000''],
              [Num 1793729269524, Str ''2026-11-03'', Str ''11:00'', Str ''12:00'',
               Str ''Manikur'', Num 60, Str ''Bea'', Str ''2'', Str ''booked'', Str '''',
               Str ''2026-11-03T17:27:49.524000'']],
           Services = []\<rparr>,
          [Success_booked 1793729269524])"
    by (subst example_sheet_booking [OF _ _ p(2)]) (simp_all add: s f)
  from booking_ids_follow_clock [OF a b] have "(1793729268524 :: int) < 1793729269524"
    by simp
  with a b show ?thesis by blast
qed

theorem booking_ids_clock_set_back:
  "confirm_booking \<lparr>Bookings = [map Str BOOKINGS_HEADER], Services = []\<rparr>
      \<lparr>stamp_ms = 1793729268524, stamp_iso = ''2026-11-03T17:27:48.524000''\<rparr>
      \<lparr>year = 2026, month = 11, day = 3\<rparr> ''10:00'' 60 ''Manikur'' ''Anna'' ''1'' '''' =
     Inr (\<lparr>Bookings =
             [map Str BOOKINGS_HEADER,
              [Num 1793729268524, Str ''2026-11-03'', Str ''10:00'', Str ''11:00'',
               Str ''Manikur'', Num 60, Str ''Anna'', Str ''1'', Str ''booked'', Str '''',
               Str ''2026-11-03T17:27:48.524000'']],
           Services = []\<rparr>,
          [Success_booked 1793729268524]) \<and>
   confirm_booking
      \<lparr>Bookings =
         [map Str BOOKINGS_HEADER,
          [Num 1793729268524, Str ''2026-11-03'', Str ''10:00'', Str ''11:00'',
           Str ''Manikur'', Num 60, Str ''Anna'', Str ''1'', Str ''booked'', Str '''',
           Str ''2026-11-03T17:27:48.524000'']],
       Services = []\<rparr>
      \<lparr>stamp_ms = 1793729267524, stamp_iso = ''2026-11-03T17:27:47.524000''\<rparr>
      \<lparr>year = 2026, month = 11, day = 3\<rparr> ''11:00'' 60 ''Manikur'' ''Bea'' ''2'' '''' =
     Inr (\<lparr>Bookings =
             [map Str BOOKINGS_HEADER,
              [Num 1793729268524, Str ''2026-11-03'', Str ''10:00'', Str ''11:00'',
               Str ''Manikur'', Num 60, Str ''Anna'', Str ''1'', Str ''booked'', Str '''',
               Str ''2026-11-03T17:27:48.524000''],
              [Num 1793729267524, Str ''2026-11-03'', Str ''11:00'', Str ''12:00'',
               Str ''Manikur'', Num 60, Str ''Bea'', Str ''2'', Str ''booked'', Str '''',
               Str ''2026-11-03T17:27:47.524000'']],
           Services = []\<rparr>,
          [Success_booked 1793729267524]) \<and>
   \<not> (1793729268524 :: int) < 1793729267524"
proof -
  have p: "strptime_HM ''10:00'' = Inr 600" "strptime_HM ''11:00'' = Inr 660"
    by (simp_all add: strptime_HM_def two_digits_def digit_val_def mk_time_def)
  have s: "strip ''Anna'' = ''Anna''" "strip ''Bea'' = ''Bea''" "strip ''1'' = ''1''"
    "strip ''2'' = ''2''" "strip '''' = ''''"
    by (simp_all add: strip_def is_space_def)
  have f: "strftime_HM 660 = ''11:00''" "strftime_HM 720 = ''12:00''"
    by (simp_all add: strftime_HM_def pad2_def digit_chr_def)
  show ?thesis
    apply (intro conjI)
      apply (subst example_sheet_booking [OF _ _ p(1)]; simp add: s f)
     apply (subst example_sheet_booking [OF _ _ p(2)]; simp add: s f)
    apply simp
    done
qed

text \<open>
  C8: for an entered id that is not blank, the status form goes through the records of
  the bookings sheet in order and compares \<open>str\<close> of the id of each with the entered id
  without the space around it. If reading the records raises, the exception ends the
  handler. If no record has the id, the sheet stays as it is and the error that the id
  was not found is shown. If the header has a \<open>status\<close> column, the cell of that column in
  the row of the first record with the id is set to the new status and the success is
  shown; every other cell of the bookings sheet, and the services sheet, stay as they
  are, and the sheet keeps its number of rows when the row is one of them. If the header
  has no \<open>status\<close> column, no cell is written.
\<close>

theorem apply_status_frame:
  assumes "strip booking_id_to_change \<noteq> []"
  shows "(\<forall>e. all_records view = Inl e \<longrightarrow>
            apply_status sh view booking_id_to_change new_status = Inl e) \<and>
         (\<forall>rows. all_records view = Inr rows \<and>
            (\<forall>r\<in>set rows. py_str (map_of r ''id'') \<noteq> strip booking_id_to_change) \<longrightarrow>
            apply_status sh view booking_id_to_change new_status =
              Inr (sh, [Error_id_not_found])) \<and>
         (\<forall>pre r post k.
            all_records view = Inr (pre @ r # post) \<and>
            (\<forall>r'\<in>set pre. py_str (map_of r' ''id'') \<noteq> strip booking_id_to_change) \<and>
            py_str (map_of r ''id'') = strip booking_id_to_change \<and>
            index_of (first_row view) ''status'' = Some k \<longrightarrow>
            (\<exists>ws'. apply_status sh view booking_id_to_change new_status =
                     Inr (sh\<lparr>Bookings := ws'\<rparr>, [Success_updated]) \<and>
                   cell_at ws' (length pre + 1) k = Str new_status \<and>
                   (\<forall>a b. (a, b) \<noteq> (length pre + 1, k) \<longrightarrow>
                      cell_at ws' a b = cell_at (Bookings sh) a b) \<and>
                   (length pre + 2 \<le> length (Bookings sh) \<longrightarrow>
                      length ws' = length (Bookings sh)))) \<and>
         (\<forall>rows. all_records view = Inr rows \<and>
            index_of (first_row view) ''status'' = None \<longrightarrow>
            (\<exists>out. apply_status sh view booking_id_to_change new_status = Inr (sh, out)))"
proof (intro conjI allI impI)
  fix e assume "all_records view = Inl e"
  then show "apply_status sh view booking_id_to_change new_status = Inl e"
    by (rule apply_status_raises [OF assms])
next
  fix rows
  assume "all_records view = Inr rows \<and>
      (\<forall>r\<in>set rows. py_str (map_of r ''id'') \<noteq> strip booking_id_to_change)"
  then show "apply_status sh view booking_id_to_change new_status =
      Inr (sh, [Error_id_not_found])"
    using apply_status_none [OF assms] by blast
next
  fix rows
  assume "all_records view = Inr rows \<and> index_of (first_row view) ''status'' = None"
  then show "\<exists>out. apply_status sh view booking_id_to_change new_status = Inr (sh, out)"
    using apply_status_no_header by blast
next
  fix pre r post k
  assume h: "all_records view = Inr (pre @ r # post) \<and>
      (\<forall>r'\<in>set pre. py_str (map_of r' ''id'') \<noteq> strip booking_id_to_change) \<and>
      py_str (map_of r ''id'') = strip booking_id_to_change \<and>
      index_of (first_row view) ''status'' = Some k"
  let ?ws = "Bookings sh"
  let ?ws' = "update_cell ?ws (length pre + 2) (k + 1) (Str new_status)"
  from h have h1: "all_records view = Inr (pre @ r # post)"
    and h2: "\<forall>r'\<in>set pre. py_str (map_of r' ''id'') \<noteq> strip booking_id_to_change"
    and h3: "py_str (map_of r ''id'') = strip booking_id_to_change"
    and h4: "index_of (first_row view) ''status'' = Some k"
    by blast+
  have e: "apply_status sh view booking_id_to_change new_status =
      Inr (sh\<lparr>Bookings := ?ws'\<rparr>, [Success_updated])"
    by (rule apply_status_first [OF assms h1 h2 h3 h4])
  have i: "1 \<le> length pre + 2" "1 \<le> k + 1"
    by simp_all
  have w: "cell_at ?ws' (length pre + 1) k = Str new_status"
    using update_cell_written [OF i, of ?ws "Str new_status"] by simp
  have o: "\<forall>a b. (a, b) \<noteq> (length pre + 1, k) \<longrightarrow> cell_at ?ws' a b = cell_at ?ws a b"
  proof (intro allI impI)
    fix a b
    assume "(a, b) \<noteq> (length pre + 1, k)"
    then have "(a, b) \<noteq> (length pre + 2 - 1, k + 1 - 1)" by simp
    from update_cell_other [OF i this, of ?ws "Str new_status"]
    show "cell_at ?ws' a b = cell_at ?ws a b" .
  qed
  have l: "length pre + 2 \<le> length ?ws \<longrightarrow> length ?ws' = length ?ws"
    using update_cell_length [OF i(1), of ?ws "k + 1" "Str new_status"] by blast
  from e w o l
  show "\<exists>ws'. apply_status sh view booking_id_to_change new_status =
                     Inr (sh\<lparr>Bookings := ws'\<rparr>, [Success_updated]) \<and>
                   cell_at ws' (length pre + 1) k = Str new_status \<and>
                   (\<forall>a b. (a, b) \<noteq> (length pre + 1, k) \<longrightarrow>
                      cell_at ws' a b = cell_at (Bookings sh) a b) \<and>
                   (length pre + 2 \<le> length (Bookings sh) \<longrightarrow>
                      length ws' = length (Bookings sh))"
    by blast
qed

theorem apply_status_frame_witness:
  "let sh = \<lparr>Bookings =
               [map Str BOOKINGS_HEADER,
                [Str ''007'', Str ''2026-11-03'', Str ''10:00'', Str ''11:00'',
                 Str ''Manikur'', Num 60, Str ''Anna'', Str ''1'', Str ''booked'', Str '''',
                 Str ''2026-11-01T08:00:00''],
                [Num 102, Str ''2026-11-03'', Str ''11:00'', Str ''12:00'', Str ''Manikur'',
                 Num 60, Str ''Bea'', Str ''2'', Str ''booked'', Str '''',
                 Str ''2026-11-01T09:00:00'']],
             Services = []\<rparr>;
       view = \<lparr>all_records =
                 Inr [zip BOOKINGS_HEADER
                        [Num 7, Str ''2026-11-03'', Str ''10:00'', Str ''11:00'',
                         Str ''Manikur'', Num 60, Str ''Anna'', Num 1, Str ''booked'',
                         Str '''', Str ''2026-11-01T08:00:00''],
                      zip BOOKINGS_HEADER
                        [Num 102, Str ''2026-11-03'', Str ''11:00'', Str ''12:00'',
                         Str ''Manikur'', Num 60, Str ''Bea'', Num 2, Str ''booked'',
                         Str '''', Str ''2026-11-01T09:00:00'']],
               first_row = BOOKINGS_HEADER\<rparr>;
       entered = ''102'' @ [CHR 0xA0]
   in strip entered \<noteq> [] \<and>
      apply_status sh view entered ''cancelled'' =
        Inr (sh\<lparr>Bookings :=
               [map Str BOOKINGS_HEADER,
                [Str ''007'', Str ''2026-11-03'', Str ''10:00'', Str ''11:00'',
                 Str ''Manikur'', Num 60, Str ''Anna'', Str ''1'', Str ''booked'', Str '''',
                 Str ''2026-11-01T08:00:00''],
                [Num 102, Str ''2026-11-03'', Str ''11:00'', Str ''12:00'', Str ''Manikur'',
                 Num 60, Str ''Bea'', Str ''2'', Str ''cancelled'', Str '''',
                 Str ''2026-11-01T09:00:00'']]\<rparr>,
             [Success_updated]) \<and>
      (\<exists>ws'. apply_status sh view entered ''cancelled'' =
                Inr (sh\<lparr>Bookings := ws'\<rparr>, [Success_updated]) \<and>
              cell_at ws' 2 8 = Str ''cancelled'' \<and>
              cell_at ws' 1 8 = cell_at (Bookings sh) 1 8 \<and>
              length ws' = length (Bookings sh)) \<and>
      apply_status sh view ''007'' ''cancelled'' = Inr (sh, [Error_id_not_found])"
proof -
  let ?g1 = "[Str ''007'', Str ''2026-11-03'', Str ''10:00'', Str ''11:00'', Str ''Manikur'',
     Num 60, Str ''Anna'', Str ''1'', Str ''booked'', Str '''', Str ''2026-11-01T08:00:00'']"
  let ?g2 = "[Num 102, Str ''2026-11-03'', Str ''11:00'', Str ''12:00'', Str ''Manikur'',
     Num 60, Str ''Bea'', Str ''2'', Str ''booked'', Str '''', Str ''2026-11-01T09:00:00'']"
  let ?r1 = "zip BOOKINGS_HEADER
     [Num 7, Str ''2026-11-03'', Str ''10:00'', Str ''11:00'', Str ''Manikur'',
      Num 60, Str ''Anna'', Num 1, Str ''booked'', Str '''', Str ''2026-11-01T08:00:00'']"
  let ?r2 = "zip BOOKINGS_HEADER
     [Num 102, Str ''2026-11-03'', Str ''11:00'', Str ''12:00'', Str ''Manikur'',
      Num 60, Str ''Bea'', Num 2, Str ''booked'', Str '''', Str ''2026-11-01T09:00:00'']"
  let ?sh = "\<lparr>Bookings = [map Str BOOKINGS_HEADER, ?g1, ?g2], Services = []\<rparr>"
  let ?view = "\<lparr>all_records = Inr [?r1, ?r2], first_row = BOOKINGS_HEADER\<rparr>"
  have s: "strip [CHR ''1'', CHR ''0'', CHR ''2'', CHR 0xA0] = ''102''" "strip ''007'' = ''007''"
    by (simp_all add: strip_def is_space_def)
  have n: "str_int 7 = ''7''" "str_int 102 = ''102''"
    by (simp_all add: str_int_def str_nat.simps digit_chr_def)
  have id1: "py_str (map_of ?r1 ''id'') = ''7''" and id2: "py_str (map_of ?r2 ''id'') = ''102''"
    by (simp_all add: BOOKINGS_HEADER_def n)
  have k: "index_of (first_row ?view) ''status'' = Some 8"
    by (simp add: BOOKINGS_HEADER_def)
  have h0: "strip (''102'' @ [CHR 0xA0]) \<noteq> []" and h1: "strip ''007'' \<noteq> []"
    by (simp_all add: s)
  have recs: "all_records ?view = Inr ([?r1] @ ?r2 # [])" by simp
  have none: "all_records ?view = Inr [?r1, ?r2] \<and>
      (\<forall>r\<in>set [?r1, ?r2]. py_str (map_of r ''id'') \<noteq> strip ''007'')"
    by (simp add: id1 id2 s)
  from apply_status_frame [OF h1, of ?view ?sh "''cancelled''", THEN conjunct2, THEN conjunct1,
      THEN spec, THEN mp, OF none]
  have a: "apply_status ?sh ?view ''007'' ''cancelled'' = Inr (?sh, [Error_id_not_found])" .
  have b: "apply_status ?sh ?view (''102'' @ [CHR 0xA0]) ''cancelled'' =
      Inr (?sh\<lparr>Bookings := update_cell (Bookings ?sh) (length [?r1] + 2) (8 + 1)
             (Str ''cancelled'')\<rparr>, [Success_updated])"
    by (rule apply_status_first [OF h0 recs _ _ k]) (simp_all add: id1 id2 s)
  have c: "apply_status ?sh ?view (''102'' @ [CHR 0xA0]) ''cancelled'' =
      Inr (?sh\<lparr>Bookings := [map Str BOOKINGS_HEADER, ?g1,
          [Num 102, Str ''2026-11-03'', Str ''11:00'', Str ''12:00'', Str ''Manikur'', Num 60,
           Str ''Bea'', Str ''2'', Str ''cancelled'', Str '''', Str ''2026-11-01T09:00:00'']]\<rparr>,
        [Success_updated])"
    unfolding b by (simp add: update_cell_def pad_row_def)
  have prem: "all_records ?view = Inr ([?r1] @ ?r2 # []) \<and>
      (\<forall>r'\<in>set [?r1]. py_str (map_of r' ''id'') \<noteq> strip (''102'' @ [CHR 0xA0])) \<and>
      py_str (map_of ?r2 ''id'') = strip (''102'' @ [CHR 0xA0]) \<and>
      index_of (first_row ?view) ''status'' = Some 8"
    using k by (simp add: id1 id2 s)
  from apply_status_frame [OF h0, of ?view ?sh "''cancelled''", THEN conjunct2, THEN conjunct2,
      THEN conjunct1, THEN spec, THEN spec, THEN spec, THEN spec, THEN mp, OF prem]
  obtain ws' where w: "apply_status ?sh ?view (''102'' @ [CHR 0xA0]) ''cancelled'' =
        Inr (?sh\<lparr>Bookings := ws'\<rparr>, [Success_updated])"
    and w1: "cell_at ws' (length [?r1] + 1) 8 = Str ''cancelled''"
    and w2: "\<forall>a b. (a, b) \<noteq> (length [?r1] + 1, 8) \<longrightarrow>
        cell_at ws' a b = cell_at (Bookings ?sh) a b"
    and w3: "length [?r1] + 2 \<le> length (Bookings ?sh) \<longrightarrow>
        length ws' = length (Bookings ?sh)"
    by blast
  have two: "length [?r1] + 1 = 2" by simp
  from w1 have x1: "cell_at ws' 2 8 = Str ''cancelled''" by (simp only: two)
  from w2 have x2: "cell_at ws' 1 8 = cell_at (Bookings ?sh) 1 8" by simp
  from w3 have x3: "length ws' = length (Bookings ?sh)" by simp
  from w x1 x2 x3
  have d: "\<exists>ws'. apply_status ?sh ?view (''102'' @ [CHR 0xA0]) ''cancelled'' =
                Inr (?sh\<lparr>Bookings := ws'\<rparr>, [Success_updated]) \<and>
              cell_at ws' 2 8 = Str ''cancelled'' \<and>
              cell_at ws' 1 8 = cell_at (Bookings ?sh) 1 8 \<and>
              length ws' = length (Bookings ?sh)"
    by blast
  from h0 c d a show ?thesis
    unfolding Let_def by blast
qed

text \<open>
  C9: a blank name or phone in the booking form, or a blank name in the form that adds a
  service, is answered with a warning and nothing is appended. The form that adds a
  service appends nothing for a blank name, and shows no message at all.
\<close>

theorem add_service_blank_silent:
  "add_service sh '''' new_duration new_price = (sh, []) \<and>
   add_service sh ''   '' new_duration new_price = (sh, [])"
  by (simp add: add_service_def strip_def is_space_def)

text \<open>
  C10: the candidate list of \<open>generate_slots\<close> depends only on the selected date and the
  module configuration; the services frame and the bookings frame passed to it have no
  influence on the result.
\<close>

theorem generate_slots_ignores_frames:
  "generate_slots selected_date services_df bookings_df =
   generate_slots selected_date services_df' bookings_df'"
  by (simp add: generate_slots_def)

end
